theory Spec2Isabelle
  imports Main "HOL-Library.Code_Target_Nat"
begin

section \<open>Python string operations used by both tools\<close>

text \<open>
  The commit message generator works on paths and tags, which are modelled as Isabelle
  strings. Its only character operation beyond comparison is \<open>str.lower\<close>, taken on the
  letters \<open>A\<close>..\<open>Z\<close>. The operations below that do not look inside a character are written
  for lists of any element type, so that both tools use them.
\<close>

definition lower_char :: "char \<Rightarrow> char" where
  "lower_char c =
     (case map_of (zip ''ABCDEFGHIJKLMNOPQRSTUVWXYZ'' ''abcdefghijklmnopqrstuvwxyz'') c of
        Some l \<Rightarrow> l
      | None \<Rightarrow> c)"

definition lower :: "string \<Rightarrow> string" where
  "lower s = map lower_char s"

text \<open>\<open>s.strip(chars)\<close> for a one-character argument.\<close>

definition strip_char :: "'a \<Rightarrow> 'a list \<Rightarrow> 'a list" where
  "strip_char d s = dropWhile (\<lambda>c. c = d) (rev (dropWhile (\<lambda>c. c = d) (rev s)))"

definition startswith :: "'a list \<Rightarrow> 'a list \<Rightarrow> bool" where
  "startswith s p = (take (length p) s = p)"

text \<open>\<open>sub in s\<close>: \<open>sub\<close> occurs in \<open>s\<close> as a contiguous piece.\<close>

fun contains :: "'a list \<Rightarrow> 'a list \<Rightarrow> bool" where
  "contains [] sub = (sub = [])"
| "contains (c # cs) sub = (startswith (c # cs) sub \<or> contains cs sub)"

text \<open>\<open>s.split(d)\<close> for a one-character separator: never the empty list.\<close>

fun split_on :: "'a \<Rightarrow> 'a list \<Rightarrow> 'a list list" where
  "split_on d [] = [[]]"
| "split_on d (c # cs) =
     (if c = d then [] # split_on d cs
      else (case split_on d cs of [] \<Rightarrow> [[c]] | p # ps \<Rightarrow> (c # p) # ps))"

text \<open>\<open>s.split(d)[0]\<close> and \<open>s.split(d)[-1]\<close>.\<close>

definition first_piece :: "'a \<Rightarrow> 'a list \<Rightarrow> 'a list" where
  "first_piece d s = (case split_on d s of [] \<Rightarrow> [] | p # ps \<Rightarrow> p)"

definition last_piece :: "'a \<Rightarrow> 'a list \<Rightarrow> 'a list" where
  "last_piece d s = (case rev (split_on d s) of [] \<Rightarrow> [] | p # ps \<Rightarrow> p)"

text \<open>\<open>s.count(c)\<close> for a one-character argument.\<close>

definition count_char :: "'a \<Rightarrow> 'a list \<Rightarrow> nat" where
  "count_char c s = length (filter (\<lambda>x. x = c) s)"

text \<open>\<open>s.replace(ab, '')\<close> for a two-character \<open>ab\<close>: occurrences are removed left to right,
  without overlap.\<close>

fun remove2 :: "'a \<Rightarrow> 'a \<Rightarrow> 'a list \<Rightarrow> 'a list" where
  "remove2 a b (x # y # zs) = (if x = a \<and> y = b then remove2 a b zs else x # remove2 a b (y # zs))"
| "remove2 a b xs = xs"

text \<open>\<open>sep.join(parts)\<close> for a one-character separator.\<close>

fun join_with :: "'a \<Rightarrow> 'a list list \<Rightarrow> 'a list" where
  "join_with d [] = []"
| "join_with d [p] = p"
| "join_with d (p # q # ps) = p @ d # join_with d (q # ps)"

text \<open>\<open>str(n)\<close> for a natural number.\<close>

fun str_nat :: "nat \<Rightarrow> string" where
  "str_nat n = (if n < 10 then [''0123456789'' ! n] else str_nat (n div 10) @ [''0123456789'' ! (n mod 10)])"

declare str_nat.simps [simp del]

subsection \<open>Unicode text\<close>

text \<open>
  The validator reads arbitrary text, and its \<open>strip\<close>, \<open>\s\<close>, \<open>\S\<close> and \<open>\d\<close> look at every
  Unicode character. There a Python \<open>str\<close> is the list of its code points, and \<open>u\<close> gives
  the code points of an ASCII literal. The tables are those of CPython 3.11 (Unicode 14):
  \<open>str.isspace\<close>, which is also the class \<open>\s\<close>, and the decimal digits (category \<open>Nd\<close>),
  which are the class \<open>\d\<close> and what \<open>int\<close> reads; the digits come in runs of ten, each
  run listed by its zero.
\<close>

type_synonym ustring = "nat list"

definition u :: "string \<Rightarrow> ustring" where
  "u s = map of_char s"

definition is_space :: "nat \<Rightarrow> bool" where
  "is_space n =
     ((9 \<le> n \<and> n \<le> 13) \<or> (28 \<le> n \<and> n \<le> 32) \<or> n = 0x85 \<or> n = 0xA0 \<or> n = 0x1680
      \<or> (0x2000 \<le> n \<and> n \<le> 0x200A) \<or> n = 0x2028 \<or> n = 0x2029 \<or> n = 0x202F
      \<or> n = 0x205F \<or> n = 0x3000)"

definition digit_zeros :: "nat list" where
  "digit_zeros =
     [0x30, 0x660, 0x6F0, 0x7C0, 0x966, 0x9E6, 0xA66, 0xAE6,
      0xB66, 0xBE6, 0xC66, 0xCE6, 0xD66, 0xDE6, 0xE50, 0xED0,
      0xF20, 0x1040, 0x1090, 0x17E0, 0x1810, 0x1946, 0x19D0, 0x1A80,
      0x1A90, 0x1B50, 0x1BB0, 0x1C40, 0x1C50, 0xA620, 0xA8D0, 0xA900,
      0xA9D0, 0xA9F0, 0xAA50, 0xABF0, 0xFF10, 0x104A0, 0x10D30, 0x11066,
      0x110F0, 0x11136, 0x111D0, 0x112F0, 0x11450, 0x114D0, 0x11650, 0x116C0,
      0x11730, 0x118E0, 0x11950, 0x11C50, 0x11D50, 0x11DA0, 0x16A60, 0x16AC0,
      0x16B50, 0x1D7CE, 0x1D7D8, 0x1D7E2, 0x1D7EC, 0x1D7F6, 0x1E140, 0x1E2F0,
      0x1E950, 0x1FBF0]"

definition digit_value :: "nat \<Rightarrow> nat option" where
  "digit_value n =
     (case find (\<lambda>z. z \<le> n \<and> n \<le> z + 9) digit_zeros of
        Some z \<Rightarrow> Some (n - z)
      | None \<Rightarrow> None)"

definition is_digit :: "nat \<Rightarrow> bool" where
  "is_digit n = (digit_value n \<noteq> None)"

definition is_hex_digit :: "nat \<Rightarrow> bool" where
  "is_hex_digit n = ((48 \<le> n \<and> n \<le> 57) \<or> (97 \<le> n \<and> n \<le> 102) \<or> (65 \<le> n \<and> n \<le> 70))"

definition lstrip :: "ustring \<Rightarrow> ustring" where
  "lstrip s = dropWhile is_space s"

definition rstrip :: "ustring \<Rightarrow> ustring" where
  "rstrip s = rev (dropWhile is_space (rev s))"

definition strip :: "ustring \<Rightarrow> ustring" where
  "strip s = lstrip (rstrip s)"

text \<open>
  \<open>int(ds)\<close> for a non-empty string of decimal digits. The number it reads, and the
  \<open>ValueError\<close> it raises instead (\<open>Inl\<close>, with the text of the exception) when the string
  has more digits than the limit of the interpreter (\<open>sys.get_int_max_str_digits()\<close>, 4300
  unless set otherwise, 0 for no limit).
\<close>

definition int_of_digits :: "ustring \<Rightarrow> nat" where
  "int_of_digits ds = foldl (\<lambda>a c. 10 * a + (case digit_value c of Some d \<Rightarrow> d | None \<Rightarrow> 0)) 0 ds"

definition int_limit_text :: "nat \<Rightarrow> nat \<Rightarrow> ustring" where
  "int_limit_text limit n =
     u (''Exceeds the limit ('' @ str_nat limit @ '' digits) for integer string conversion: value has ''
        @ str_nat n @ '' digits; use sys.set_int_max_str_digits() to increase the limit'')"

definition py_int :: "nat \<Rightarrow> ustring \<Rightarrow> ustring + nat" where
  "py_int limit ds =
     (if limit \<noteq> 0 \<and> length ds > limit then Inl (int_limit_text limit (length ds))
      else Inr (int_of_digits ds))"

section \<open>Tool A: the commit message generator\<close>

text \<open>The dictionary built by \<open>analyze_diff\<close>. \<open>file_types\<close> is a Python set: the list holds
  its elements, its size is the number of distinct ones.\<close>

record analysis =
  files_changed :: "string list"
  additions :: int
  deletions :: int
  file_types :: "string list"
  change_patterns :: "string list"

definition determine_commit_type :: "analysis \<Rightarrow> string" where
  "determine_commit_type a =
     (let patterns = change_patterns a in
      if ''bugfix'' \<in> set patterns then ''fix''
      else if ''feature'' \<in> set patterns then ''feat''
      else if ''docs'' \<in> set patterns then ''docs''
      else if ''style'' \<in> set patterns then ''style''
      else if ''refactor'' \<in> set patterns then ''refactor''
      else if ''perf'' \<in> set patterns then ''perf''
      else if ''test'' \<in> set patterns then ''test''
      else if ''config'' \<in> set patterns then ''chore''
      else if ''deps'' \<in> set patterns then ''chore''
      else if deletions a > additions a * 2 then ''refactor''
      else if additions a > 10 then ''feat''
      else ''chore'')"

text \<open>The precedence of the specification, as a table: the tags from the strongest to the
  weakest, each with the commit type it decides.\<close>

definition precedence :: "(string \<times> string) list" where
  "precedence =
     [(''bugfix'', ''fix''), (''feature'', ''feat''), (''docs'', ''docs''), (''style'', ''style''),
      (''refactor'', ''refactor''), (''perf'', ''perf''), (''test'', ''test''),
      (''config'', ''chore''), (''deps'', ''chore'')]"

definition size_fallback :: "analysis \<Rightarrow> string" where
  "size_fallback a =
     (if deletions a > 2 * additions a then ''refactor''
      else if additions a > 10 then ''feat'' else ''chore'')"

definition commit_type_by_table :: "analysis \<Rightarrow> string" where
  "commit_type_by_table a =
     (case find (\<lambda>(tag, ty). tag \<in> set (change_patterns a)) precedence of
        Some (tag, ty) \<Rightarrow> ty
      | None \<Rightarrow> size_fallback a)"

subsection \<open>Scope\<close>

definition scope_map :: "(string \<times> string) list" where
  "scope_map =
     [(''source'', ''src''), (''sources'', ''src''), (''test'', ''test''), (''tests'', ''test''),
      (''documentation'', ''docs''), (''config'', ''config''), (''configuration'', ''config'')]"

text \<open>The set \<open>directories\<close>: the first component of every path that has a \<open>/\<close>.\<close>

definition directories_of :: "string list \<Rightarrow> string list" where
  "directories_of files = remdups (map (first_piece CHR ''/'') (filter (\<lambda>f. CHR ''/'' \<in> set f) files))"

text \<open>The set \<open>extensions\<close>: what follows the last \<open>.\<close> of every path that has one.\<close>

definition extensions_of :: "string list \<Rightarrow> string list" where
  "extensions_of files = remdups (map (last_piece CHR ''.'') (filter (\<lambda>f. CHR ''.'' \<in> set f) files))"

definition extension_scope :: "string \<Rightarrow> string option" where
  "extension_scope ext =
     (if ext \<in> set [''py'', ''js'', ''ts'', ''go'', ''rs'', ''java''] then Some ''core''
      else if ext \<in> set [''md'', ''txt'', ''rst''] then Some ''docs''
      else if ext \<in> set [''yml'', ''yaml'', ''json'', ''toml''] then Some ''config''
      else None)"

text \<open>The last loop of \<open>get_scope\<close>: the first path with a well-known base name decides.\<close>

fun specific_files :: "string list \<Rightarrow> string" where
  "specific_files [] = ''''"
| "specific_files (file_path # rest) =
     (let base_name = lower (last_piece CHR ''/'' file_path) in
      if base_name \<in> set [''readme.md'', ''readme.txt'', ''readme.rst''] then ''readme''
      else if base_name \<in> set [''package.json'', ''requirements.txt'', ''pyproject.toml'',
                                ''cargo.toml'', ''go.mod''] then ''deps''
      else if startswith base_name ''dockerfile'' then ''docker''
      else if base_name \<in> set [''.gitignore'', ''.env'', ''.env.example''] then ''config''
      else specific_files rest)"

definition get_scope :: "string list \<Rightarrow> string" where
  "get_scope files =
     (if files = [] then ''''
      else
        (case directories_of files of
           [scope] \<Rightarrow> (case map_of scope_map (lower scope) of Some s \<Rightarrow> s | None \<Rightarrow> scope)
         | _ \<Rightarrow>
           (case (case extensions_of files of [ext] \<Rightarrow> extension_scope ext | _ \<Rightarrow> None) of
              Some s \<Rightarrow> s
            | None \<Rightarrow> specific_files files)))"

subsection \<open>Description\<close>

definition generate_description :: "analysis \<Rightarrow> string \<Rightarrow> string" where
  "generate_description a commit_type =
     (case files_changed a of
        [] \<Rightarrow> ''Update files''
      | [f] \<Rightarrow>
          (let file_name = last_piece CHR ''/'' f in
           if commit_type = ''fix'' then ''Resolve issues in '' @ file_name
           else if commit_type = ''feat'' then
             (if additions a > deletions a * 2 then ''Add new functionality to '' @ file_name
              else ''Enhance '' @ file_name)
           else if commit_type = ''docs'' then ''Update documentation in '' @ file_name
           else if commit_type = ''style'' then ''Format '' @ file_name
           else if commit_type = ''refactor'' then ''Restructure '' @ file_name
           else if commit_type = ''test'' then ''Add tests for '' @ file_name
           else if commit_type = ''perf'' then ''Optimize '' @ file_name @ '' performance''
           else ''Update '' @ file_name)
      | fs \<Rightarrow>
          (if commit_type = ''fix'' then ''Resolve multiple issues''
           else if commit_type = ''feat'' then
             (case remdups (file_types a) of
                [file_type] \<Rightarrow> ''Add new '' @ file_type @ '' features''
              | _ \<Rightarrow> ''Add new functionality'')
           else if commit_type = ''docs'' then ''Update documentation''
           else if commit_type = ''style'' then ''Format code''
           else if commit_type = ''refactor'' then
             (if deletions a > additions a then ''Remove unnecessary code'' else ''Restructure codebase'')
           else if commit_type = ''test'' then ''Add test coverage''
           else if commit_type = ''perf'' then ''Improve performance''
           else if commit_type = ''chore'' then
             (if ''deps'' \<in> set (change_patterns a) then ''Update dependencies''
              else if ''config'' \<in> set (change_patterns a) then ''Update configuration''
              else ''Update project files'')
           else ''Update '' @ str_nat (length fs) @ '' files''))"

subsection \<open>The scope rule in the words of the specification\<close>

text \<open>Every changed path shares a single top-level directory component: every path has a
  \<open>/\<close> and the same first component.\<close>

definition shared_top_dir :: "string list \<Rightarrow> string option" where
  "shared_top_dir files =
     (case files of
        [] \<Rightarrow> None
      | f # fs \<Rightarrow>
          (if list_all (\<lambda>g. CHR ''/'' \<in> set g \<and> first_piece CHR ''/'' g = first_piece CHR ''/'' f) (f # fs)
           then Some (first_piece CHR ''/'' f) else None))"

text \<open>The shared component lower-cased and mapped through the synonym table.\<close>

definition synonym_scope :: "string \<Rightarrow> string" where
  "synonym_scope d = (case map_of scope_map (lower d) of Some s \<Rightarrow> s | None \<Rightarrow> lower d)"

section \<open>Tool B: the tmux configuration validator\<close>

text \<open>The code point of an ASCII character, for the single characters the code names.\<close>

definition cp :: "char \<Rightarrow> nat" where
  "cp c = of_char c"

datatype ValidationLevel = ERROR | WARNING | INFO

fun level_value :: "ValidationLevel \<Rightarrow> ustring" where
  "level_value ERROR = u ''ERROR''"
| "level_value WARNING = u ''WARNING''"
| "level_value INFO = u ''INFO''"

record ValidationIssue =
  level :: ValidationLevel
  line_number :: nat
  message :: ustring
  line_content :: ustring
  suggestion :: "ustring option"

definition mk_issue :: "ValidationLevel \<Rightarrow> nat \<Rightarrow> ustring \<Rightarrow> ustring \<Rightarrow> ustring option \<Rightarrow> ValidationIssue" where
  "mk_issue l n m c s = \<lparr>level = l, line_number = n, message = m, line_content = c, suggestion = s\<rparr>"

subsection \<open>Exceptions and the world outside the validator\<close>

text \<open>
  The exceptions the code tells apart: \<open>subprocess.TimeoutExpired\<close>, \<open>FileNotFoundError\<close>,
  and every other subclass of \<open>Exception\<close> (an \<open>OSError\<close>, a \<open>ValueError\<close>, ...), each with
  the text that \<open>str\<close> gives for it. An exception outside \<open>Exception\<close> (an interrupt from the
  keyboard) ends the process at once and is not modelled.
\<close>

datatype exn =
  TimeoutExpired ustring
| FileNotFoundError ustring
| OtherException ustring

fun exn_text :: "exn \<Rightarrow> ustring" where
  "exn_text (TimeoutExpired t) = t"
| "exn_text (FileNotFoundError t) = t"
| "exn_text (OtherException t) = t"

text \<open>What a run prints: a line of text, or the array that \<open>json.dumps(output, indent=2)\<close>
  renders, kept as the list of its objects.\<close>

datatype json_object =
  JsonIssue (j_level: ustring) (j_line: nat) (j_message: ustring) (j_content: ustring)
    (j_suggestion: "ustring option")

datatype printed = Text ustring | JsonArray "json_object list"

text \<open>
  The file system, the process environment and the interpreter, as the validator asks them.
  Every answer that can be an exception is a sum, \<open>Inl\<close> the exception:
  \<^item> \<open>home\<close>: \<open>Path.home()\<close>;
  \<^item> \<open>path_exists\<close>: \<open>Path.exists()\<close> on the text of a path, which answers or raises an
    \<open>OSError\<close> (a name that is too long, a directory that may not be searched);
  \<^item> \<open>read_lines\<close>: \<open>open\<close> and \<open>readlines\<close>, the lines each with its line end;
  \<^item> \<open>expand_path\<close>: \<open>os.path.expandvars\<close> and then \<open>os.path.expanduser\<close>;
  \<^item> \<open>run_tmux\<close>: \<open>subprocess.run\<close> of tmux on a configuration file, which gives the return
    code and the captured error output, or raises;
  \<^item> \<open>int_max_str_digits\<close>: the limit of \<open>int\<close> on the digits of a string;
  \<^item> \<open>print_raises\<close>: the exception that \<open>print\<close> raises on an item (the stream cannot encode
    it, the pipe is closed), if any.
\<close>

record environment =
  home :: "exn + ustring"
  path_exists :: "ustring \<Rightarrow> exn + bool"
  read_lines :: "ustring \<Rightarrow> exn + ustring list"
  expand_path :: "ustring \<Rightarrow> ustring"
  run_tmux :: "ustring \<Rightarrow> exn + (int \<times> ustring)"
  int_max_str_digits :: nat
  print_raises :: "printed \<Rightarrow> exn option"

subsection \<open>Paths\<close>

text \<open>
  A \<open>pathlib\<close> path on a POSIX system, kept as the text that \<open>str\<close> gives for it. The root
  is \<open>//\<close> when the text begins with exactly two slashes, \<open>/\<close> when it begins with one or
  with more than two, and empty otherwise; the parts are the pieces between slashes that
  are neither empty nor a single dot.
\<close>

definition path_root :: "ustring \<Rightarrow> ustring" where
  "path_root s =
     (let leading = length (takeWhile (\<lambda>c. c = cp CHR ''/'') s) in
      if leading = 0 then [] else if leading = 2 then u ''//'' else u ''/'')"

definition path_parts :: "ustring \<Rightarrow> ustring list" where
  "path_parts s = filter (\<lambda>x. x \<noteq> [] \<and> x \<noteq> u ''.'') (split_on (cp CHR ''/'') s)"

definition path_text :: "ustring \<Rightarrow> ustring list \<Rightarrow> ustring" where
  "path_text root parts =
     (if root = [] \<and> parts = [] then u ''.'' else root @ join_with (cp CHR ''/'') parts)"

text \<open>\<open>str(Path(s))\<close>, \<open>Path(s).is_absolute()\<close>, \<open>str(Path(s).parent)\<close>, and \<open>str(Path(d) / p)\<close>
  for a \<open>p\<close> that is not absolute.\<close>

definition normalize_path :: "ustring \<Rightarrow> ustring" where
  "normalize_path s = path_text (path_root s) (path_parts s)"

definition is_absolute :: "ustring \<Rightarrow> bool" where
  "is_absolute s = (path_root s \<noteq> [])"

definition parent_dir :: "ustring \<Rightarrow> ustring" where
  "parent_dir s = path_text (path_root s) (butlast (path_parts s))"

definition join_path :: "ustring \<Rightarrow> ustring \<Rightarrow> ustring" where
  "join_path d p = path_text (path_root d) (path_parts d @ path_parts p)"

subsection \<open>The validator object\<close>

record validator =
  config_path :: ustring
  issues :: "ValidationIssue list"
  keybindings :: "ustring \<rightharpoonup> nat"
  options :: "ustring \<rightharpoonup> (ustring \<times> nat)"

definition possible_paths :: "ustring \<Rightarrow> ustring list" where
  "possible_paths h =
     [join_path h (u ''.tmux.conf''),
      join_path (join_path (join_path h (u ''.config'')) (u ''tmux'')) (u ''tmux.conf''),
      normalize_path (u ''/Users/daisuke.oda/dotfiles/tmux/tmux.conf'')]"

text \<open>The loop of \<open>_find_config_file\<close>: the first candidate that exists; an exception of
  \<open>exists\<close> leaves the loop.\<close>

fun first_existing :: "environment \<Rightarrow> ustring list \<Rightarrow> exn + ustring option" where
  "first_existing env [] = Inr None"
| "first_existing env (path # rest) =
     (case path_exists env path of
        Inl e \<Rightarrow> Inl e
      | Inr found \<Rightarrow> if found then Inr (Some path) else first_existing env rest)"

definition find_config_file :: "environment \<Rightarrow> exn + ustring" where
  "find_config_file env =
     (case home env of
        Inl e \<Rightarrow> Inl e
      | Inr h \<Rightarrow>
          (case first_existing env (possible_paths h) of
             Inl e \<Rightarrow> Inl e
           | Inr (Some path) \<Rightarrow> Inr path
           | Inr None \<Rightarrow> Inl (FileNotFoundError (u ''No tmux configuration file found''))))"

text \<open>\<open>__init__\<close>: a missing or empty \<open>config_path\<close> starts the search; a given one is kept as
  \<open>Path(config_path)\<close>.\<close>

definition new_validator :: "environment \<Rightarrow> ustring option \<Rightarrow> exn + validator" where
  "new_validator env config =
     (case (case config of
              None \<Rightarrow> find_config_file env
            | Some p \<Rightarrow> if p \<noteq> [] then Inr (normalize_path p) else find_config_file env) of
        Inl e \<Rightarrow> Inl e
      | Inr p \<Rightarrow> Inr \<lparr>config_path = p, issues = [], keybindings = Map.empty, options = Map.empty\<rparr>)"

definition append_issue :: "ValidationIssue \<Rightarrow> validator \<Rightarrow> validator" where
  "append_issue i v = v\<lparr>issues := issues v @ [i]\<rparr>"

text \<open>The test at the head of every loop body, on the stripped line: blank or comment.\<close>

definition skip_line :: "ustring \<Rightarrow> bool" where
  "skip_line stripped = (stripped = [] \<or> startswith stripped (u ''#''))"

definition quote :: ustring where
  "quote = [0x27]"

subsection \<open>Syntax check\<close>

definition has_unclosed_quotes :: "ustring \<Rightarrow> bool" where
  "has_unclosed_quotes line0 =
     (let line = remove2 0x5C 0x27 (remove2 0x5C 0x22 line0);
          single_quotes = count_char 0x27 line;
          double_quotes = count_char 0x22 line
      in single_quotes mod 2 \<noteq> 0 \<or> double_quotes mod 2 \<noteq> 0)"

definition typos :: "(ustring \<times> ustring) list" where
  "typos =
     [(u ''set-window-opton'', u ''set-window-option''),
      (u ''set-opton'', u ''set-option''),
      (u ''bind-keys'', u ''bind-key''),
      (u ''unbind-keys'', u ''unbind-key''),
      (u ''set-envionment'', u ''set-environment'')]"

definition typo_step :: "nat \<Rightarrow> ustring \<Rightarrow> ustring \<Rightarrow> validator \<Rightarrow> ustring \<times> ustring \<Rightarrow> validator" where
  "typo_step i line stripped v = (\<lambda>(typo, correct).
     if contains stripped typo then
       append_issue (mk_issue ERROR i (u ''Possible typo: '' @ quote @ typo @ quote) (rstrip line)
         (Some (u ''Did you mean '' @ quote @ correct @ quote @ u ''?''))) v
     else v)"

definition syntax_step :: "validator \<Rightarrow> nat \<times> ustring \<Rightarrow> validator" where
  "syntax_step v = (\<lambda>(i, line).
     let stripped = strip line in
     if skip_line stripped then v
     else
       (let v1 = (if has_unclosed_quotes stripped then
                    append_issue (mk_issue ERROR i (u ''Unclosed quotes detected'') (rstrip line)
                      (Some (u ''Ensure all quotes are properly closed''))) v
                  else v)
        in foldl (typo_step i line stripped) v1 typos))"

definition check_syntax :: "ustring list \<Rightarrow> validator \<Rightarrow> validator" where
  "check_syntax lines v = foldl syntax_step v (enumerate 1 lines)"

subsection \<open>Key binding conflict check\<close>

text \<open>
  The pattern \<open>^\s*(bind-key|bind)\s+(-[rnx]+\s+)?(\S+)\<close>, matched at the start of the
  stripped line. \<open>bind_rest word s\<close> is what follows \<open>word\<close> and at least one white space;
  \<open>flag_cluster\<close> is what follows a cluster \<open>-[rnx]+\<close> and at least one white space;
  \<open>key_token\<close> is the group \<open>(\S+)\<close>. The optional cluster is tried first, and given up when
  no key token follows it.
\<close>

definition starts_with_space :: "ustring \<Rightarrow> bool" where
  "starts_with_space s = (case s of [] \<Rightarrow> False | c # cs \<Rightarrow> is_space c)"

definition bind_rest :: "ustring \<Rightarrow> ustring \<Rightarrow> ustring option" where
  "bind_rest word s =
     (if startswith s word \<and> starts_with_space (drop (length word) s)
      then Some (dropWhile is_space (drop (length word) s)) else None)"

definition flag_cluster :: "ustring \<Rightarrow> ustring option" where
  "flag_cluster s =
     (case s of
        [] \<Rightarrow> None
      | c # r \<Rightarrow>
          if c = cp CHR ''-'' \<and> takeWhile (\<lambda>x. x \<in> set (u ''rnx'')) r \<noteq> []
             \<and> starts_with_space (dropWhile (\<lambda>x. x \<in> set (u ''rnx'')) r)
          then Some (dropWhile is_space (dropWhile (\<lambda>x. x \<in> set (u ''rnx'')) r))
          else None)"

definition key_token :: "ustring \<Rightarrow> ustring option" where
  "key_token s = (let k = takeWhile (\<lambda>c. \<not> is_space c) s in if k = [] then None else Some k)"

definition bind_match :: "ustring \<Rightarrow> ustring option" where
  "bind_match line =
     (let s = dropWhile is_space line in
      case (case bind_rest (u ''bind-key'') s of Some r \<Rightarrow> Some r | None \<Rightarrow> bind_rest (u ''bind'') s) of
        None \<Rightarrow> None
      | Some r \<Rightarrow>
          (case flag_cluster r of
             None \<Rightarrow> key_token r
           | Some r' \<Rightarrow> (case key_token r' of Some k \<Rightarrow> Some k | None \<Rightarrow> key_token r)))"

definition keybinding_step :: "validator \<Rightarrow> nat \<times> ustring \<Rightarrow> validator" where
  "keybinding_step v = (\<lambda>(i, line).
     let stripped = strip line in
     if skip_line stripped then v
     else
       (case bind_match stripped of
          None \<Rightarrow> v
        | Some key \<Rightarrow>
            (case keybindings v key of
               Some first \<Rightarrow>
                 append_issue (mk_issue WARNING i (u ''Duplicate key binding '' @ quote @ key @ quote)
                   (rstrip line) (Some (u ''Previously defined at line '' @ u (str_nat first)))) v
             | None \<Rightarrow> v\<lparr>keybindings := (keybindings v)(key \<mapsto> i)\<rparr>)))"

definition check_keybinding_conflicts :: "ustring list \<Rightarrow> validator \<Rightarrow> validator" where
  "check_keybinding_conflicts lines v = foldl keybinding_step v (enumerate 1 lines)"

subsection \<open>Deprecated option check\<close>

definition deprecated :: "(ustring \<times> ustring option) list" where
  "deprecated =
     [((u ''mode-mouse''), Some (u ''mouse'')),
      ((u ''mouse-resize-pane''), Some (u ''mouse'')),
      ((u ''mouse-select-pane''), Some (u ''mouse'')),
      ((u ''mouse-select-window''), Some (u ''mouse'')),
      ((u ''mouse-utf8''), None),
      ((u ''default-command''), None)]"

definition deprecated_option_step :: "nat \<Rightarrow> ustring \<Rightarrow> ustring \<Rightarrow> validator \<Rightarrow> ustring \<times> ustring option \<Rightarrow> validator" where
  "deprecated_option_step i line stripped v = (\<lambda>(old_option, new_option).
     if contains stripped old_option then
       append_issue (mk_issue WARNING i (u ''Deprecated option '' @ quote @ old_option @ quote) (rstrip line)
         (Some (case new_option of
                  Some n \<Rightarrow> u ''Use '' @ quote @ n @ quote @ u '' instead''
                | None \<Rightarrow> (u ''This option has been removed'')))) v
     else v)"

definition deprecated_step :: "validator \<Rightarrow> nat \<times> ustring \<Rightarrow> validator" where
  "deprecated_step v = (\<lambda>(i, line).
     let stripped = strip line in
     if skip_line stripped then v
     else foldl (deprecated_option_step i line stripped) v deprecated)"

definition check_deprecated_options :: "ustring list \<Rightarrow> validator \<Rightarrow> validator" where
  "check_deprecated_options lines v = foldl deprecated_step v (enumerate 1 lines)"

subsection \<open>Color value check\<close>

text \<open>
  The pattern \<open>(fg|bg|style)=(\S+)\<close>. \<open>color_match_at s\<close> matches it at the start of \<open>s\<close>
  and gives the two groups and the text after the match; \<open>color_findall\<close> is \<open>findall\<close>:
  the matches from left to right, each search starting where the match before it ended.
\<close>

definition attr_prefix :: "ustring \<Rightarrow> (ustring \<times> ustring) option" where
  "attr_prefix s =
     (if startswith s (u ''fg'') then Some ((u ''fg''), drop 2 s)
      else if startswith s (u ''bg'') then Some ((u ''bg''), drop 2 s)
      else if startswith s (u ''style'') then Some ((u ''style''), drop 5 s)
      else None)"

definition color_match_at :: "ustring \<Rightarrow> (ustring \<times> ustring \<times> ustring) option" where
  "color_match_at s =
     (case attr_prefix s of
        None \<Rightarrow> None
      | Some (attr, r) \<Rightarrow>
          (case r of
             [] \<Rightarrow> None
           | c # r' \<Rightarrow>
               if c = cp CHR ''='' \<and> takeWhile (\<lambda>x. \<not> is_space x) r' \<noteq> []
               then Some (attr, takeWhile (\<lambda>x. \<not> is_space x) r', dropWhile (\<lambda>x. \<not> is_space x) r')
               else None))"

lemma color_match_at_shorter:
  "color_match_at s = Some (attr, color, rest) \<Longrightarrow> length rest < length s"
proof -
  assume m: "color_match_at s = Some (attr, color, rest)"
  then obtain a r where a: "attr_prefix s = Some (a, r)"
    by (auto simp: color_match_at_def split: option.splits)
  then have r: "length r \<le> length s"
    by (auto simp: attr_prefix_def split: if_splits)
  from m a obtain c r' where "r = c # r'" and "rest = dropWhile (\<lambda>x. \<not> is_space x) r'"
    by (auto simp: color_match_at_def split: list.splits if_splits)
  then have "length rest < length r"
    using length_dropWhile_le [of "\<lambda>x. \<not> is_space x" r'] by simp
  with r show ?thesis by simp
qed

function color_findall :: "ustring \<Rightarrow> (ustring \<times> ustring) list" where
  "color_findall [] = []"
| "color_findall (c # cs) =
     (case color_match_at (c # cs) of
        Some (attr, color, rest) \<Rightarrow> (attr, color) # color_findall rest
      | None \<Rightarrow> color_findall cs)"
  by pat_completeness auto
termination
proof (relation "measure length")
  show "wf (measure length)" by simp
next
  fix c cs x2 x y xa ya
  assume "color_match_at (c # cs) = Some x2" and "(x, y) = x2" and "(xa, ya) = y"
  then have "color_match_at (c # cs) = Some (x, xa, ya)" by simp
  then have "length ya < length (c # cs)"
    by (rule color_match_at_shorter)
  then show "(ya, c # cs) \<in> measure length" by simp
next
  fix c cs
  show "(cs, c # cs) \<in> measure length" by simp
qed

definition valid_colors :: "ustring list" where
  "valid_colors =
     [(u ''black''), (u ''red''), (u ''green''), (u ''yellow''), (u ''blue''), (u ''magenta''), (u ''cyan''), (u ''white''),
      (u ''brightblack''), (u ''brightred''), (u ''brightgreen''), (u ''brightyellow''),
      (u ''brightblue''), (u ''brightmagenta''), (u ''brightcyan''), (u ''brightwhite''),
      (u ''default''), (u ''terminal'')]"

text \<open>\<open>re.match(r'^#[0-9a-fA-F]{6}$', color)\<close>: the \<open>$\<close> also matches before a final line end.\<close>

definition hex_color_match :: "ustring \<Rightarrow> bool" where
  "hex_color_match color =
     (case color of
        [] \<Rightarrow> False
      | c # r \<Rightarrow> c = cp CHR ''#'' \<and> length (take 6 r) = 6 \<and> list_all is_hex_digit (take 6 r)
                 \<and> (drop 6 r = [] \<or> drop 6 r = [0x0A]))"

definition color_accepted :: "ustring \<Rightarrow> bool" where
  "color_accepted color =
     (color \<in> set valid_colors \<or> startswith color (u ''colour'') \<or> startswith color (u ''color'')
      \<or> hex_color_match color)"

definition color_suggestion :: ustring where
  "color_suggestion =
     u ''Use valid color name, '' @ quote @ u ''colour0-255'' @ quote @ u '', or hex code ''
       @ quote @ u ''#RRGGBB'' @ quote"

definition color_match_step :: "nat \<Rightarrow> ustring \<Rightarrow> validator \<Rightarrow> ustring \<times> ustring \<Rightarrow> validator" where
  "color_match_step i line v = (\<lambda>(attr, color).
     if \<not> color_accepted color then
       append_issue (mk_issue WARNING i (u ''Invalid color value '' @ quote @ color @ quote) (rstrip line)
         (Some color_suggestion)) v
     else v)"

definition color_step :: "validator \<Rightarrow> nat \<times> ustring \<Rightarrow> validator" where
  "color_step v = (\<lambda>(i, line).
     let stripped = strip line in
     if skip_line stripped then v
     else foldl (color_match_step i line) v (color_findall stripped))"

definition check_color_values :: "ustring list \<Rightarrow> validator \<Rightarrow> validator" where
  "check_color_values lines v = foldl color_step v (enumerate 1 lines)"

subsection \<open>Path check\<close>

text \<open>
  The pattern \<open>^\s*source(?:-file)?\s+(.+?)(?:\s|$)\<close> on a stripped line: after the
  directive and its white space the line goes on with a character that is no white space,
  and the lazy group ends before the next white space or at the end of the line.
\<close>

definition source_match :: "ustring \<Rightarrow> ustring option" where
  "source_match line =
     (let s = dropWhile is_space line in
      case (case bind_rest (u ''source-file'') s of Some r \<Rightarrow> Some r | None \<Rightarrow> bind_rest (u ''source'') s) of
        None \<Rightarrow> None
      | Some r \<Rightarrow> key_token r)"

text \<open>
  A loop body that may raise gives the exception, if any, and the validator as the body
  left it. Here \<open>path.exists()\<close> may raise; the call stands outside any \<open>try\<close>, so the
  exception leaves the check.
\<close>

definition paths_step :: "environment \<Rightarrow> validator \<Rightarrow> nat \<times> ustring \<Rightarrow> exn option \<times> validator" where
  "paths_step env v = (\<lambda>(i, line).
     let stripped = strip line in
     if skip_line stripped then (None, v)
     else
       (case source_match stripped of
          None \<Rightarrow> (None, v)
        | Some g \<Rightarrow>
            (let path_str = expand_path env (strip_char 0x27 (strip_char 0x22 (strip g)));
                 path = (if is_absolute path_str then normalize_path path_str
                         else join_path (parent_dir (config_path v)) path_str)
             in case path_exists env path of
                  Inl e \<Rightarrow> (Some e, v)
                | Inr found \<Rightarrow>
                    if \<not> found then
                      (None, append_issue (mk_issue ERROR i (u ''Source file not found: '' @ path_str)
                         (rstrip line) (Some (u ''Check that the file exists and path is correct''))) v)
                    else (None, v))))"

text \<open>A loop whose body may raise: the first exception ends it.\<close>

fun loop_raising :: "('s \<Rightarrow> 'x \<Rightarrow> exn option \<times> 's) \<Rightarrow> 's \<Rightarrow> 'x list \<Rightarrow> exn option \<times> 's" where
  "loop_raising body v [] = (None, v)"
| "loop_raising body v (x # xs) =
     (case body v x of
        (Some e, v') \<Rightarrow> (Some e, v')
      | (None, v') \<Rightarrow> loop_raising body v' xs)"

definition check_paths :: "environment \<Rightarrow> ustring list \<Rightarrow> validator \<Rightarrow> exn option \<times> validator" where
  "check_paths env lines v = loop_raising (paths_step env) v (enumerate 1 lines)"

subsection \<open>Check against tmux itself\<close>

text \<open>\<open>re.search(r'line (\d+):', error)\<close>: the digits of the leftmost match.\<close>

definition line_token_at :: "ustring \<Rightarrow> ustring option" where
  "line_token_at s =
     (if startswith s (u ''line '') \<and> takeWhile is_digit (drop 5 s) \<noteq> []
         \<and> startswith (dropWhile is_digit (drop 5 s)) (u '':'')
      then Some (takeWhile is_digit (drop 5 s)) else None)"

fun search_line_token :: "ustring \<Rightarrow> ustring option" where
  "search_line_token [] = None"
| "search_line_token (c # cs) =
     (case line_token_at (c # cs) of Some ds \<Rightarrow> Some ds | None \<Rightarrow> search_line_token cs)"

text \<open>The body of the loop over the error lines: \<open>int\<close> may raise on the digits.\<close>

definition tmux_error_step :: "nat \<Rightarrow> validator \<Rightarrow> ustring \<Rightarrow> exn option \<times> validator" where
  "tmux_error_step limit v error =
     (if error \<noteq> [] \<and> \<not> startswith error (u ''server exited'') then
        (case (case search_line_token error of
                 Some ds \<Rightarrow> py_int limit ds
               | None \<Rightarrow> Inr 0) of
           Inl t \<Rightarrow> (Some (OtherException t), v)
         | Inr line_num \<Rightarrow>
             (None, append_issue (mk_issue ERROR line_num (u ''tmux validation error'') [] (Some error)) v))
      else (None, v))"

text \<open>The \<open>try\<close> block: the run of tmux may raise, and so may the loop.\<close>

definition tmux_try :: "environment \<Rightarrow> validator \<Rightarrow> exn option \<times> validator" where
  "tmux_try env v =
     (case run_tmux env (config_path v) of
        Inl e \<Rightarrow> (Some e, v)
      | Inr (returncode, err) \<Rightarrow>
          if returncode \<noteq> 0 then
            loop_raising (tmux_error_step (int_max_str_digits env)) v (split_on 0x0A (strip err))
          else (None, v))"

text \<open>The \<open>try\<close> with its three handlers, in their order.\<close>

definition validate_with_tmux :: "environment \<Rightarrow> validator \<Rightarrow> exn option \<times> validator" where
  "validate_with_tmux env v =
     (case tmux_try env v of
        (None, v') \<Rightarrow> (None, v')
      | (Some (TimeoutExpired t), v') \<Rightarrow>
          (None, append_issue (mk_issue WARNING 0 (u ''tmux validation timeout'') []
             (Some (u ''Config validation took too long, might have blocking commands''))) v')
      | (Some (FileNotFoundError t), v') \<Rightarrow>
          (None, append_issue (mk_issue INFO 0 (u ''tmux not found in PATH'') []
             (Some (u ''Install tmux to enable full validation''))) v')
      | (Some (OtherException t), v') \<Rightarrow>
          (None, append_issue (mk_issue WARNING 0 (u ''Could not validate with tmux: '' @ t) []
             (Some (u ''Syntax validation only, runtime validation skipped''))) v'))"

subsection \<open>The pipeline\<close>

definition validate :: "environment \<Rightarrow> validator \<Rightarrow> exn option \<times> validator" where
  "validate env v0 =
     (let v = v0\<lparr>issues := []\<rparr> in
      case read_lines env (config_path v) of
        Inl e \<Rightarrow>
          (None, append_issue (mk_issue ERROR 0 (u ''Cannot read config file: '' @ exn_text e) []
             (Some (u ''Check file permissions and path''))) v)
      | Inr lines \<Rightarrow>
          (case check_paths env lines
                  (check_color_values lines
                    (check_deprecated_options lines
                      (check_keybinding_conflicts lines
                        (check_syntax lines v)))) of
             (Some e, v') \<Rightarrow> (Some e, v')
           | (None, v') \<Rightarrow> validate_with_tmux env v'))"

subsection \<open>Report and exit status\<close>

text \<open>The decorations of the report, as the text of the source file has them.\<close>

definition mark_ok :: ustring where
  "mark_ok = [0xE2, 0x153, 0x2026]"

definition mark_report :: ustring where
  "mark_report = [0xF0, 0x178, 0x201C, 0x2039]"

definition mark_error :: ustring where
  "mark_error = [0xE2, 0x152]"

definition mark_warning :: ustring where
  "mark_warning = [0xE2, 0x161, 0xA0, 0xEF, 0xB8, 0x20]"

definition mark_info :: ustring where
  "mark_info = [0xE2, 0x201E, 0xB9, 0xEF, 0xB8, 0x20]"

definition mark_hint :: ustring where
  "mark_hint = [0xF0, 0x178, 0x2019, 0xA1]"

definition newline :: ustring where
  "newline = [0x0A]"

text \<open>Every \<open>print\<close> call is one element of the list.\<close>

definition print_issue :: "ValidationIssue \<Rightarrow> ustring list" where
  "print_issue issue =
     [if line_number issue > 0 then
        newline @ u ''  ['' @ level_value (level issue) @ u ''] Line '' @ u (str_nat (line_number issue))
          @ u '': '' @ message issue
      else newline @ u ''  ['' @ level_value (level issue) @ u ''] '' @ message issue]
     @ (if line_content issue \<noteq> [] then [u ''    > '' @ line_content issue] else [])
     @ (case suggestion issue of
          None \<Rightarrow> []
        | Some s \<Rightarrow> if s \<noteq> [] then [u ''    '' @ mark_hint @ u '' '' @ s] else [])"

definition print_report :: "validator \<Rightarrow> ustring list" where
  "print_report v =
     (if issues v = [] then [mark_ok @ u '' No issues found in '' @ config_path v]
      else
        (let errors = filter (\<lambda>i. level i = ERROR) (issues v);
             warnings = filter (\<lambda>i. level i = WARNING) (issues v);
             info = filter (\<lambda>i. level i = INFO) (issues v)
         in [newline @ mark_report @ u '' Validation Report for '' @ config_path v,
             replicate 60 (cp CHR ''='')]
            @ (if errors \<noteq> [] then
                 (newline @ mark_error @ u '' '' @ u (str_nat (length errors)) @ u '' Error(s) found:'')
                 # concat (map print_issue errors)
               else [])
            @ (if warnings \<noteq> [] then
                 (newline @ mark_warning @ u '' '' @ u (str_nat (length warnings)) @ u '' Warning(s) found:'')
                 # concat (map print_issue warnings)
               else [])
            @ (if info \<noteq> [] then
                 (newline @ mark_info @ u '' '' @ u (str_nat (length info)) @ u '' Info message(s):'')
                 # concat (map print_issue info)
               else [])
            @ [newline @ replicate 60 (cp CHR ''=''),
               u ''Summary: '' @ u (str_nat (length errors)) @ u '' errors, '' @ u (str_nat (length warnings))
                 @ u '' warnings, '' @ u (str_nat (length info)) @ u '' info'']))"

text \<open>The prints of a run, one after the other: what was printed, and the exception of the
  first \<open>print\<close> that raised, if any.\<close>

fun print_all :: "environment \<Rightarrow> printed list \<Rightarrow> printed list \<times> exn option" where
  "print_all env [] = ([], None)"
| "print_all env (x # xs) =
     (case print_raises env x of
        Some e \<Rightarrow> ([], Some e)
      | None \<Rightarrow> (case print_all env xs of (done, r) \<Rightarrow> (x # done, r)))"

text \<open>The command line after \<open>argparse\<close>, and what a run leaves behind.\<close>

record arguments =
  config_arg :: "ustring option"
  json_flag :: bool
  fix_flag :: bool

record process_result =
  stdout :: "printed list"
  stderr :: "ustring list"
  exit_status :: nat

definition json_of_issue :: "ValidationIssue \<Rightarrow> json_object" where
  "json_of_issue issue =
     JsonIssue (level_value (level issue)) (line_number issue) (message issue) (line_content issue)
       (suggestion issue)"

text \<open>The handler of \<open>main\<close>: one line on the error stream, exit status 1.\<close>

definition handled :: "printed list \<Rightarrow> exn \<Rightarrow> process_result" where
  "handled printed_before e =
     \<lparr>stdout = printed_before, stderr = [u ''Error: '' @ exn_text e], exit_status = 1\<rparr>"

text \<open>What the run prints when nothing raised before: the array, or the report.\<close>

definition report_items :: "arguments \<Rightarrow> validator \<Rightarrow> printed list" where
  "report_items args validator =
     (if json_flag args then [JsonArray (map json_of_issue (issues validator))]
      else map Text (print_report validator))"

text \<open>
  \<open>main\<close>. Its \<open>try\<close> covers the constructor, \<open>validate\<close>, the printing, and \<open>sys.exit\<close>,
  whose \<open>SystemExit\<close> is no \<open>Exception\<close> and passes the handler.
\<close>

definition main :: "environment \<Rightarrow> arguments \<Rightarrow> process_result" where
  "main env args =
     (case new_validator env (config_arg args) of
        Inl e \<Rightarrow> handled [] e
      | Inr validator0 \<Rightarrow>
          (case validate env validator0 of
             (Some e, validator) \<Rightarrow> handled [] e
           | (None, validator) \<Rightarrow>
               (case print_all env (report_items args validator) of
                  (printed_before, Some e) \<Rightarrow> handled printed_before e
                | (printed_before, None) \<Rightarrow>
                    \<lparr>stdout = printed_before, stderr = [],
                     exit_status = (if list_ex (\<lambda>i. level i = ERROR) (issues validator) then 1 else 0)\<rparr>)))"

subsection \<open>The color rule in the words of the specification\<close>

text \<open>A 6-hex-digit \<open>#RRGGBB\<close> code.\<close>

definition rrggbb :: "ustring \<Rightarrow> bool" where
  "rrggbb color =
     (case color of [] \<Rightarrow> False | c # ds \<Rightarrow> c = cp CHR ''#'' \<and> length ds = 6 \<and> list_all is_hex_digit ds)"

text \<open>The word \<open>colour\<close> or \<open>color\<close> followed by an index, a non-empty run of digits.\<close>

definition colour_index_form :: "ustring \<Rightarrow> bool" where
  "colour_index_form color =
     ((startswith color (u ''colour'') \<and> drop 6 color \<noteq> [] \<and> list_all is_digit (drop 6 color))
      \<or> (startswith color (u ''color'') \<and> drop 5 color \<noteq> [] \<and> list_all is_digit (drop 5 color)))"

definition color_valid_by_spec :: "ustring \<Rightarrow> bool" where
  "color_valid_by_spec color =
     (color \<in> set valid_colors \<or> colour_index_form color \<or> rrggbb color)"

subsection \<open>A validator as \<open>__init__\<close> leaves it\<close>

definition fresh :: "ustring \<Rightarrow> validator" where
  "fresh p = \<lparr>config_path = p, issues = [], keybindings = Map.empty, options = Map.empty\<rparr>"

subsection \<open>The key binding rule in the words of the claim\<close>

text \<open>The token that the key binding check reads off a line, if any.\<close>

definition line_key :: "ustring \<Rightarrow> ustring option" where
  "line_key line = (if skip_line (strip line) then None else bind_match (strip line))"

text \<open>A flag outside the cluster \<open>-[rnx]+\<close>: a hyphen, then characters without white space, one
  of them not among \<open>r\<close>, \<open>n\<close>, \<open>x\<close>.\<close>

definition outside_rnx_flag :: "ustring \<Rightarrow> bool" where
  "outside_rnx_flag f =
     (case f of
        [] \<Rightarrow> False
      | c # cs \<Rightarrow> c = cp CHR ''-'' \<and> list_ex (\<lambda>x. x \<notin> set (u ''rnx'')) cs
                  \<and> list_all (\<lambda>x. \<not> is_space x) (c # cs))"

text \<open>A line of the form \<open>bind <flag> ...\<close> or \<open>bind-key <flag> ...\<close>: the directive, white
  space, the flag, and then the end of the line or white space.\<close>

definition bind_with_flag :: "ustring \<Rightarrow> ustring \<Rightarrow> bool" where
  "bind_with_flag f line =
     list_ex (\<lambda>w.
        startswith (strip line) w
        \<and> starts_with_space (drop (length w) (strip line))
        \<and> startswith (dropWhile is_space (drop (length w) (strip line))) f
        \<and> (drop (length f) (dropWhile is_space (drop (length w) (strip line))) = []
             \<or> starts_with_space (drop (length f) (dropWhile is_space (drop (length w) (strip line))))))
       [(u ''bind-key''), (u ''bind'')]"

subsection \<open>A concrete world\<close>

text \<open>A world in which the one file \<open>/tmp/tmux.conf\<close> exists and holds the given lines, no
  other path exists, path expansion changes nothing, the run of tmux ends as given, \<open>int\<close> has its default
  limit, and every \<open>print\<close> succeeds.\<close>

definition world :: "ustring list \<Rightarrow> exn + (int \<times> ustring) \<Rightarrow> environment" where
  "world lines outcome =
     \<lparr>home = Inr (u ''/home/user''),
      path_exists = (\<lambda>p. Inr (p = u ''/tmp/tmux.conf'')),
      read_lines = (\<lambda>p. if p = u ''/tmp/tmux.conf'' then Inr lines
                          else Inl (FileNotFoundError
                                 (u ''[Errno 2] No such file or directory: '' @ quote @ p @ quote))),
      expand_path = (\<lambda>p. p),
      run_tmux = (\<lambda>p. outcome),
      int_max_str_digits = 4300,
      print_raises = (\<lambda>x. None)\<rparr>"


text \<open>A world like \<open>world\<close> in which no file exists at all.\<close>

definition empty_world :: environment where
  "empty_world = (world [] (Inr (0, [])))\<lparr>path_exists := (\<lambda>p. Inr False)\<rparr>"

subsection \<open>The run, in the words of the specification\<close>

text \<open>The five static checks, in their order.\<close>

definition static_checks :: "environment \<Rightarrow> ustring list \<Rightarrow> validator \<Rightarrow> exn option \<times> validator" where
  "static_checks env lines v =
     check_paths env lines
       (check_color_values lines
         (check_deprecated_options lines
           (check_keybinding_conflicts lines
             (check_syntax lines v))))"

text \<open>The configuration could not be loaded: no validator came to be (no configuration file
  was found), or its file could not be read.\<close>

definition load_failed :: "environment \<Rightarrow> arguments \<Rightarrow> bool" where
  "load_failed env args =
     (case new_validator env (config_arg args) of
        Inl e \<Rightarrow> True
      | Inr v \<Rightarrow> (case read_lines env (config_path v) of Inl e \<Rightarrow> True | Inr lines \<Rightarrow> False))"

text \<open>The issues that the validation run produced.\<close>

definition found_issues :: "environment \<Rightarrow> arguments \<Rightarrow> ValidationIssue list" where
  "found_issues env args =
     (case new_validator env (config_arg args) of
        Inl e \<Rightarrow> []
      | Inr v \<Rightarrow> issues (snd (validate env v)))"

text \<open>An exception left \<open>validate\<close>; a \<open>print\<close> of the report raised.\<close>

definition check_raised :: "environment \<Rightarrow> arguments \<Rightarrow> bool" where
  "check_raised env args =
     (case new_validator env (config_arg args) of
        Inl e \<Rightarrow> False
      | Inr v \<Rightarrow> fst (validate env v) \<noteq> None)"

definition print_raised :: "environment \<Rightarrow> arguments \<Rightarrow> bool" where
  "print_raised env args =
     (case new_validator env (config_arg args) of
        Inl e \<Rightarrow> False
      | Inr v \<Rightarrow>
          (case validate env v of
             (Some e, v') \<Rightarrow> False
           | (None, v') \<Rightarrow> snd (print_all env (report_items args v')) \<noteq> None))"


subsection \<open>The check against tmux, in the words of the claim\<close>

text \<open>An error line that the loop looks at; the line number it carries; and whether \<open>int\<close>
  refuses its digits.\<close>

definition eligible :: "ustring \<Rightarrow> bool" where
  "eligible error = (error \<noteq> [] \<and> \<not> startswith error (u ''server exited''))"

definition line_number_of :: "ustring \<Rightarrow> nat" where
  "line_number_of error = (case search_line_token error of Some ds \<Rightarrow> int_of_digits ds | None \<Rightarrow> 0)"

definition too_long :: "nat \<Rightarrow> ustring \<Rightarrow> bool" where
  "too_long limit error =
     (case search_line_token error of
        Some ds \<Rightarrow> limit \<noteq> 0 \<and> length ds > limit
      | None \<Rightarrow> False)"

definition token_length :: "ustring \<Rightarrow> nat" where
  "token_length error = (case search_line_token error of Some ds \<Rightarrow> length ds | None \<Rightarrow> 0)"

text \<open>
  What the check against tmux appends, by the outcome of the run. After a non-zero exit,
  the lines of the stripped error output that the loop looks at give one ERROR each, up to
  the first whose digits \<open>int\<close> refuses; that one gives the WARNING of the last handler,
  and the lines after it give nothing.
\<close>

definition tmux_issues :: "environment \<Rightarrow> ustring \<Rightarrow> ValidationIssue list" where
  "tmux_issues env p =
     (case run_tmux env p of
        Inr (returncode, err) \<Rightarrow>
          if returncode = 0 then []
          else
            map (\<lambda>error. mk_issue ERROR (line_number_of error) (u ''tmux validation error'') [] (Some error))
              (takeWhile (\<lambda>e. \<not> too_long (int_max_str_digits env) e)
                 (filter eligible (split_on 0x0A (strip err))))
            @ (case dropWhile (\<lambda>e. \<not> too_long (int_max_str_digits env) e)
                      (filter eligible (split_on 0x0A (strip err))) of
                 [] \<Rightarrow> []
               | bad # rest \<Rightarrow>
                   [mk_issue WARNING 0
                      (u ''Could not validate with tmux: ''
                         @ int_limit_text (int_max_str_digits env) (token_length bad)) []
                      (Some (u ''Syntax validation only, runtime validation skipped''))])
      | Inl (TimeoutExpired t) \<Rightarrow>
          [mk_issue WARNING 0 (u ''tmux validation timeout'') []
             (Some (u ''Config validation took too long, might have blocking commands''))]
      | Inl (FileNotFoundError t) \<Rightarrow>
          [mk_issue INFO 0 (u ''tmux not found in PATH'') [] (Some (u ''Install tmux to enable full validation''))]
      | Inl (OtherException t) \<Rightarrow>
          [mk_issue WARNING 0 (u ''Could not validate with tmux: '' @ t) []
             (Some (u ''Syntax validation only, runtime validation skipped''))])"

section \<open>Properties of the string operations\<close>

lemma split_on_nonempty: "split_on d s \<noteq> []"
  by (induction s) (auto split: list.splits)

lemma split_on_no_sep: "p \<in> set (split_on d s) \<Longrightarrow> d \<notin> set p"
proof (induction s arbitrary: p)
  case Nil
  then show ?case by simp
next
  case (Cons c cs)
  show ?case
  proof (cases "c = d")
    case True
    with Cons show ?thesis by auto
  next
    case False
    obtain q qs where q: "split_on d cs = q # qs"
      using split_on_nonempty [of d cs] by (cases "split_on d cs") auto
    with Cons False show ?thesis by auto
  qed
qed

lemma last_piece_no_sep: "d \<notin> set (last_piece d s)"
proof -
  have "last_piece d s \<in> set (split_on d s)"
    using split_on_nonempty [of d s]
    by (cases "rev (split_on d s)") (auto simp: last_piece_def dest: arg_cong [where f = set])
  then show ?thesis by (rule split_on_no_sep)
qed

lemma startswith_append: "startswith (p @ s) p"
  by (simp add: startswith_def)

lemma startswith_iff: "startswith s p \<longleftrightarrow> (\<exists>q. s = p @ q)"
  unfolding startswith_def
  by (metis append_eq_conv_conj append_take_drop_id)

lemma contains_iff: "contains s sub \<longleftrightarrow> (\<exists>p q. s = p @ sub @ q)"
proof (induction s)
  case Nil
  then show ?case by auto
next
  case (Cons c cs)
  show ?case
  proof
    assume "contains (c # cs) sub"
    then consider "startswith (c # cs) sub" | "contains cs sub" by auto
    then show "\<exists>p q. c # cs = p @ sub @ q"
    proof cases
      case 1
      then obtain q where "c # cs = sub @ q" by (auto simp: startswith_iff)
      then have "c # cs = [] @ sub @ q" by simp
      then show ?thesis by blast
    next
      case 2
      with Cons obtain p q where "cs = p @ sub @ q" by blast
      then have "c # cs = (c # p) @ sub @ q" by simp
      then show ?thesis by blast
    qed
  next
    assume "\<exists>p q. c # cs = p @ sub @ q"
    then obtain p q where pq: "c # cs = p @ sub @ q" by blast
    show "contains (c # cs) sub"
    proof (cases p)
      case Nil
      with pq have "startswith (c # cs) sub" by (simp add: startswith_iff)
      then show ?thesis by simp
    next
      case (Cons a p')
      with pq have "cs = p' @ sub @ q" by simp
      with Cons.IH show ?thesis by auto
    qed
  qed
qed

lemma contains_subset: "contains s sub \<Longrightarrow> set sub \<subseteq> set s"
  by (auto simp: contains_iff)

lemma contains_mid: "contains (p @ sub @ q) sub"
  by (auto simp: contains_iff)

lemma contains_end: "contains (p @ sub) sub"
  using contains_mid [of p sub "[]"] by simp

section \<open>Properties of Tool A\<close>

lemma determine_commit_type_table: "determine_commit_type a = commit_type_by_table a"
  by (simp add: determine_commit_type_def commit_type_by_table_def precedence_def size_fallback_def
      mult.commute)

text \<open>
  C1. The commit type follows the fixed precedence bugfix, feature, docs, style, refactor,
  perf, test, config, deps over the detected patterns: the first tag of that order that was
  detected decides the type (config and deps both give chore). When none was detected, the
  type is refactor if the deletions are more than twice the additions, else feat if the
  additions exceed 10, else chore. Whenever bugfix was detected the type is fix.
\<close>

theorem determine_commit_type_precedence:
  "determine_commit_type a = commit_type_by_table a
   \<and> (\<forall>i < length precedence.
        fst (precedence ! i) \<in> set (change_patterns a)
        \<and> (\<forall>j < i. fst (precedence ! j) \<notin> set (change_patterns a))
        \<longrightarrow> determine_commit_type a = snd (precedence ! i))
   \<and> ((\<forall>tag \<in> fst ` set precedence. tag \<notin> set (change_patterns a)) \<longrightarrow>
        determine_commit_type a =
          (if deletions a > 2 * additions a then ''refactor''
           else if additions a > 10 then ''feat'' else ''chore''))
   \<and> (''bugfix'' \<in> set (change_patterns a) \<longrightarrow> determine_commit_type a = ''fix'')"
proof (intro conjI allI impI)
  show "determine_commit_type a = commit_type_by_table a"
    by (rule determine_commit_type_table)
next
  fix i
  assume i: "i < length precedence"
    and h: "fst (precedence ! i) \<in> set (change_patterns a)
        \<and> (\<forall>j < i. fst (precedence ! j) \<notin> set (change_patterns a))"
  have "find (\<lambda>(tag, ty). tag \<in> set (change_patterns a)) precedence = Some (precedence ! i)"
    unfolding find_Some_iff using i h by (auto simp: case_prod_beta)
  then show "determine_commit_type a = snd (precedence ! i)"
    by (simp add: determine_commit_type_table commit_type_by_table_def case_prod_beta)
next
  assume "\<forall>tag \<in> fst ` set precedence. tag \<notin> set (change_patterns a)"
  then have "find (\<lambda>(tag, ty). tag \<in> set (change_patterns a)) precedence = None"
    unfolding find_None_iff by force
  then show "determine_commit_type a =
          (if deletions a > 2 * additions a then ''refactor''
           else if additions a > 10 then ''feat'' else ''chore'')"
    by (simp add: determine_commit_type_table commit_type_by_table_def size_fallback_def)
next
  assume "''bugfix'' \<in> set (change_patterns a)"
  then show "determine_commit_type a = ''fix''"
    by (simp add: determine_commit_type_def)
qed

theorem determine_commit_type_precedence_witness:
  "determine_commit_type \<lparr>files_changed = [''a.py''], additions = 3, deletions = 0, file_types = [''python''],
       change_patterns = [''test'', ''docs'', ''bugfix'', ''feature'']\<rparr> = ''fix''
   \<and> determine_commit_type \<lparr>files_changed = [''a.py''], additions = 3, deletions = 0, file_types = [''python''],
       change_patterns = [''deps'', ''perf'']\<rparr> = ''perf''
   \<and> determine_commit_type \<lparr>files_changed = [''a.py''], additions = 11, deletions = 22, file_types = [''python''],
       change_patterns = []\<rparr> = ''feat''"
proof (intro conjI)
  let ?a = "\<lparr>files_changed = [''a.py''], additions = 3, deletions = 0, file_types = [''python''],
       change_patterns = [''test'', ''docs'', ''bugfix'', ''feature'']\<rparr>"
  show "determine_commit_type ?a = ''fix''"
    using determine_commit_type_precedence [of ?a, THEN conjunct2, THEN conjunct2, THEN conjunct2]
    by simp
next
  let ?a = "\<lparr>files_changed = [''a.py''], additions = 3, deletions = 0, file_types = [''python''],
       change_patterns = [''deps'', ''perf'']\<rparr>"
  have "determine_commit_type ?a = snd (precedence ! 5)"
  proof (rule determine_commit_type_precedence [of ?a, THEN conjunct2, THEN conjunct1, rule_format, of 5])
    show "5 < length precedence" by (simp add: precedence_def)
    show "fst (precedence ! 5) \<in> set (change_patterns ?a)
      \<and> (\<forall>j < 5. fst (precedence ! j) \<notin> set (change_patterns ?a))"
      by (simp add: precedence_def All_less_Suc numeral_nat)
  qed
  then show "determine_commit_type ?a = ''perf''"
    by (simp add: precedence_def)
next
  let ?a = "\<lparr>files_changed = [''a.py''], additions = 11, deletions = 22, file_types = [''python''],
       change_patterns = []\<rparr>"
  show "determine_commit_type ?a = ''feat''"
    using determine_commit_type_precedence [of ?a, THEN conjunct2, THEN conjunct2, THEN conjunct1]
    by simp
qed

lemma set_directories_of:
  "set (directories_of files) = {first_piece CHR ''/'' f | f. f \<in> set files \<and> CHR ''/'' \<in> set f}"
  by (auto simp: directories_of_def)

lemma set_extensions_of:
  "set (extensions_of files) = {last_piece CHR ''.'' f | f. f \<in> set files \<and> CHR ''.'' \<in> set f}"
  by (auto simp: extensions_of_def)

lemma distinct_singleton: "distinct xs \<Longrightarrow> set xs = {d} \<longleftrightarrow> xs = [d]"
proof
  assume d: "distinct xs" and s: "set xs = {d}"
  then have "card (set xs) = 1" by simp
  with d have "length xs = 1" by (simp add: distinct_card)
  then obtain x where "xs = [x]" by (cases xs) auto
  with s show "xs = [d]" by simp
qed simp

lemma distinct_not_card1:
  assumes "distinct xs" and "card (set xs) \<noteq> 1"
  shows "xs = [] \<or> (\<exists>x y zs. xs = x # y # zs)"
proof (cases xs)
  case Nil
  then show ?thesis by simp
next
  case (Cons x ys)
  with assms show ?thesis by (cases ys) auto
qed

text \<open>
  C3, as the code has it. For a non-empty list of changed paths: when the paths that contain
  a \<open>/\<close> have exactly one distinct first component \<open>d\<close> among them (paths without a
  \<open>/\<close> are not looked at), the scope is the synonym-table entry of the lower-cased \<open>d\<close>
  if there is one, and \<open>d\<close> itself, unchanged, otherwise. Only otherwise, when the paths that
  contain a \<open>.\<close> have exactly one distinct extension among them, a programming extension
  gives core, a documentation extension docs and a structured-data extension config. For
  the paths \<open>src/a.py\<close> and \<open>src/b.py\<close> the scope is \<open>src\<close>.
\<close>

theorem get_scope_directory_then_extension:
  assumes "files \<noteq> []"
  shows "(\<forall>d. set (directories_of files) = {d} \<longrightarrow>
            get_scope files = (case map_of scope_map (lower d) of Some s \<Rightarrow> s | None \<Rightarrow> d))
       \<and> (\<forall>e. card (set (directories_of files)) \<noteq> 1 \<and> set (extensions_of files) = {e} \<longrightarrow>
            (e \<in> {''py'', ''js'', ''ts'', ''go'', ''rs'', ''java''} \<longrightarrow> get_scope files = ''core'')
          \<and> (e \<in> {''md'', ''txt'', ''rst''} \<longrightarrow> get_scope files = ''docs'')
          \<and> (e \<in> {''yml'', ''yaml'', ''json'', ''toml''} \<longrightarrow> get_scope files = ''config''))
       \<and> get_scope [''src/a.py'', ''src/b.py''] = ''src''"
proof (intro conjI allI impI)
  fix d
  assume "set (directories_of files) = {d}"
  then have "directories_of files = [d]"
    using distinct_singleton [of "directories_of files" d] by (simp add: directories_of_def)
  with assms show "get_scope files = (case map_of scope_map (lower d) of Some s \<Rightarrow> s | None \<Rightarrow> d)"
    by (simp add: get_scope_def)
next
  fix e
  assume h: "card (set (directories_of files)) \<noteq> 1 \<and> set (extensions_of files) = {e}"
  have dd: "distinct (directories_of files)" by (simp add: directories_of_def)
  have ee: "extensions_of files = [e]"
    using h distinct_singleton [of "extensions_of files" e] by (simp add: extensions_of_def)
  have g: "get_scope files = (case extension_scope e of Some s \<Rightarrow> s | None \<Rightarrow> specific_files files)"
    using distinct_not_card1 [OF dd] h assms ee by (auto simp: get_scope_def)
  { assume "e \<in> {''py'', ''js'', ''ts'', ''go'', ''rs'', ''java''}"
    then show "get_scope files = ''core''" unfolding g by (auto simp: extension_scope_def) }
  { assume "e \<in> {''md'', ''txt'', ''rst''}"
    then show "get_scope files = ''docs''" unfolding g by (auto simp: extension_scope_def) }
  { assume "e \<in> {''yml'', ''yaml'', ''json'', ''toml''}"
    then show "get_scope files = ''config''" unfolding g by (auto simp: extension_scope_def) }
next
  show "get_scope [''src/a.py'', ''src/b.py''] = ''src''"
    by (simp add: get_scope_def directories_of_def first_piece_def scope_map_def lower_def lower_char_def)
qed

text \<open>
  C3 as stated fails twice. The single path \<open>Src/a.py\<close> shares the top-level component
  \<open>Src\<close>, whose lower-cased, synonym-mapped form is \<open>src\<close>, and the scope is \<open>Src\<close>. The
  paths \<open>src/a.py\<close> and \<open>README.md\<close> share no top-level component, and the scope is the
  directory \<open>src\<close> all the same.
\<close>

theorem get_scope_claim_counterexample:
  "shared_top_dir [''Src/a.py''] = Some ''Src''
   \<and> get_scope [''Src/a.py''] = ''Src''
   \<and> synonym_scope ''Src'' = ''src''
   \<and> shared_top_dir [''src/a.py'', ''README.md''] = None
   \<and> get_scope [''src/a.py'', ''README.md''] = ''src''"
  by (simp add: shared_top_dir_def synonym_scope_def get_scope_def directories_of_def first_piece_def
      scope_map_def lower_def lower_char_def)

theorem get_scope_directory_then_extension_witness:
  "get_scope [''Sources/a.py'', ''README.md''] = ''src''
   \<and> get_scope [''Lib/a.py'', ''Lib/b.md''] = ''Lib''
   \<and> get_scope [''a.py'', ''b.py''] = ''core''
   \<and> get_scope [''a/x.md'', ''b/y.md''] = ''docs''
   \<and> get_scope [''a.yml'', ''b/c/d.yml'', ''e/f.yml''] = ''config''"
proof (intro conjI)
  let ?fs = "[''Sources/a.py'', ''README.md'']"
  have ne: "?fs \<noteq> []" by simp
  have "set (directories_of ?fs) = {''Sources''}"
    by (simp add: directories_of_def first_piece_def)
  from get_scope_directory_then_extension [OF ne, THEN conjunct1, rule_format, OF this]
  show "get_scope ?fs = ''src''"
    by (simp add: scope_map_def lower_def lower_char_def)
next
  let ?fs = "[''Lib/a.py'', ''Lib/b.md'']"
  have ne: "?fs \<noteq> []" by simp
  have "set (directories_of ?fs) = {''Lib''}"
    by (simp add: directories_of_def first_piece_def)
  from get_scope_directory_then_extension [OF ne, THEN conjunct1, rule_format, OF this]
  show "get_scope ?fs = ''Lib''"
    by (simp add: scope_map_def lower_def lower_char_def)
next
  let ?fs = "[''a.py'', ''b.py'']"
  have ne: "?fs \<noteq> []" by simp
  have "card (set (directories_of ?fs)) \<noteq> 1 \<and> set (extensions_of ?fs) = {''py''}"
    by (simp add: directories_of_def extensions_of_def last_piece_def)
  from get_scope_directory_then_extension [OF ne, THEN conjunct2, THEN conjunct1, rule_format, OF this]
  show "get_scope ?fs = ''core''"
    by simp
next
  let ?fs = "[''a/x.md'', ''b/y.md'']"
  have ne: "?fs \<noteq> []" by simp
  have "card (set (directories_of ?fs)) \<noteq> 1 \<and> set (extensions_of ?fs) = {''md''}"
    by (simp add: directories_of_def first_piece_def extensions_of_def last_piece_def)
  from get_scope_directory_then_extension [OF ne, THEN conjunct2, THEN conjunct1, rule_format, OF this]
  show "get_scope ?fs = ''docs''"
    by simp
next
  let ?fs = "[''a.yml'', ''b/c/d.yml'', ''e/f.yml'']"
  have ne: "?fs \<noteq> []" by simp
  have "card (set (directories_of ?fs)) \<noteq> 1 \<and> set (extensions_of ?fs) = {''yml''}"
    by (simp add: directories_of_def first_piece_def extensions_of_def last_piece_def)
  from get_scope_directory_then_extension [OF ne, THEN conjunct2, THEN conjunct1, rule_format, OF this]
  show "get_scope ?fs = ''config''"
    by simp
qed

text \<open>
  C7, as the code has it. When exactly one file changed, the description contains the
  file's base name, for every commit type; and it does not contain the full path whenever
  the path has a directory part (a \<open>/\<close>).
\<close>

theorem generate_description_base_name:
  assumes "files_changed a = [f]"
  shows "contains (generate_description a commit_type) (last_piece CHR ''/'' f)
       \<and> (CHR ''/'' \<in> set f \<longrightarrow> \<not> contains (generate_description a commit_type) f)"
proof
  let ?b = "last_piece CHR ''/'' f"
  define P where "P s \<longleftrightarrow> (\<exists>p q. s = p @ ?b @ q \<and> CHR ''/'' \<notin> set p \<and> CHR ''/'' \<notin> set q)" for s
  have e1: "P (p @ ?b)" if "CHR ''/'' \<notin> set p" for p
    unfolding P_def using that by (intro exI [of _ p] exI [of _ "[]"]) simp
  have e2: "P (p @ ?b @ q)" if "CHR ''/'' \<notin> set p" and "CHR ''/'' \<notin> set q" for p q
    unfolding P_def using that by blast
  have Pif: "P (if c then x else y)" if "P x" and "P y" for c x y
    using that by simp
  have "P (generate_description a commit_type)"
    unfolding generate_description_def assms list.case Let_def
    by (intro Pif e1 e2) simp_all
  then obtain p q where d: "generate_description a commit_type = p @ ?b @ q"
    and p: "CHR ''/'' \<notin> set p" and q: "CHR ''/'' \<notin> set q"
    unfolding P_def by blast
  show "contains (generate_description a commit_type) ?b"
    unfolding d by (rule contains_mid)
  show "CHR ''/'' \<in> set f \<longrightarrow> \<not> contains (generate_description a commit_type) f"
  proof
    assume s: "CHR ''/'' \<in> set f"
    show "\<not> contains (generate_description a commit_type) f"
    proof
      assume "contains (generate_description a commit_type) f"
      then have "set f \<subseteq> set (p @ ?b @ q)" unfolding d by (rule contains_subset)
      with s have "CHR ''/'' \<in> set p \<union> set ?b \<union> set q" by auto
      with p q last_piece_no_sep [of "CHR ''/''" f] show False by blast
    qed
  qed
qed


theorem generate_description_base_name_witness:
  "contains (generate_description \<lparr>files_changed = [''src/app/main.py''], additions = 5, deletions = 1,
       file_types = [''python''], change_patterns = [''perf'']\<rparr> ''perf'') ''main.py''
   \<and> \<not> contains (generate_description \<lparr>files_changed = [''src/app/main.py''], additions = 5, deletions = 1,
       file_types = [''python''], change_patterns = [''perf'']\<rparr> ''perf'') ''src/app/main.py''"
proof -
  let ?a = "\<lparr>files_changed = [''src/app/main.py''], additions = 5, deletions = 1,
       file_types = [''python''], change_patterns = [''perf'']\<rparr>"
  have 1: "files_changed ?a = [''src/app/main.py'']" by simp
  have 2: "last_piece CHR ''/'' ''src/app/main.py'' = ''main.py''" by (simp add: last_piece_def)
  have 3: "CHR ''/'' \<in> set ''src/app/main.py''" by simp
  show ?thesis
    using generate_description_base_name [OF 1, of "''perf''"] 2 3 by simp
qed

text \<open>
  C7 as stated fails for a file at the top level: the full path of \<open>README.md\<close> is its base
  name, and the description contains it.
\<close>

theorem generate_description_full_path_counterexample:
  "contains (generate_description \<lparr>files_changed = [''README.md''], additions = 1, deletions = 0,
       file_types = [''markdown''], change_patterns = [''docs'']\<rparr> ''docs'') ''README.md''
   \<and> generate_description \<lparr>files_changed = [''README.md''], additions = 1, deletions = 0,
       file_types = [''markdown''], change_patterns = [''docs'']\<rparr> ''docs'' = ''Update documentation in README.md''"
  by code_simp

section \<open>Properties of Tool B\<close>

subsection \<open>Loops that append issues\<close>

lemma append_issue_simps [simp]:
  "issues (append_issue i v) = issues v @ [i]"
  "config_path (append_issue i v) = config_path v"
  "keybindings (append_issue i v) = keybindings v"
  "options (append_issue i v) = options v"
  by (simp_all add: append_issue_def)

lemma foldl_appends:
  assumes "\<And>v x. f v x = v\<lparr>issues := issues v @ g x\<rparr>"
  shows "foldl f v xs = v\<lparr>issues := issues v @ concat (map g xs)\<rparr>"
proof (induction xs arbitrary: v)
  case Nil
  show ?case by simp
next
  case (Cons x xs)
  show ?case by (simp add: Cons.IH) (simp add: assms)
qed

lemma concat_map_if: "concat (map (\<lambda>x. if P x then [h x] else []) xs) = map h (filter P xs)"
  by (induction xs) auto

lemma color_match_at_value:
  assumes "color_match_at s = Some (attr, color, rest)"
  shows "color \<noteq> [] \<and> (\<forall>x \<in> set color. \<not> is_space x)"
proof -
  from assms obtain r' where "color = takeWhile (\<lambda>x. \<not> is_space x) r'" and "color \<noteq> []"
    by (auto simp: color_match_at_def split: option.splits list.splits if_splits)
  then show ?thesis by (auto dest: set_takeWhileD)
qed

lemma color_findall_values:
  "(attr, color) \<in> set (color_findall s) \<Longrightarrow> color \<noteq> [] \<and> (\<forall>x \<in> set color. \<not> is_space x)"
proof (induction s rule: color_findall.induct)
  case 1
  then show ?case by simp
next
  case (2 c cs)
  show ?case
  proof (cases "color_match_at (c # cs)")
    case None
    with 2 show ?thesis by simp
  next
    case (Some m)
    obtain a col rest where m: "m = (a, col, rest)" by (cases m)
    from "2.prems" Some m have "(attr, color) = (a, col) \<or> (attr, color) \<in> set (color_findall rest)"
      by simp
    then show ?thesis
    proof
      assume "(attr, color) = (a, col)"
      with Some m color_match_at_value [of "c # cs" a col rest] show ?thesis by simp
    next
      assume "(attr, color) \<in> set (color_findall rest)"
      with "2.IH"(2) [OF Some m [symmetric] refl] show ?thesis by simp
    qed
  qed
qed

lemma is_space_newline: "is_space 0x0A"
  by (simp add: is_space_def)

lemma hex_color_match_rrggbb:
  assumes "\<forall>x \<in> set color. \<not> is_space x"
  shows "hex_color_match color \<longleftrightarrow> rrggbb color"
proof (cases color)
  case Nil
  then show ?thesis by (simp add: hex_color_match_def rrggbb_def)
next
  case (Cons c r)
  have nl: "(0x0A::nat) \<notin> set r" using assms Cons is_space_newline by auto
  have "drop 6 r \<noteq> [0x0A]"
  proof
    assume "drop 6 r = [0x0A]"
    then have "(0x0A::nat) \<in> set (drop 6 r)" by simp
    then have "(0x0A::nat) \<in> set r" by (rule in_set_dropD)
    with nl show False by simp
  qed
  moreover have "length (take 6 r) = 6 \<and> drop 6 r = [] \<longleftrightarrow> length r = 6" by auto
  ultimately show ?thesis
    using Cons by (auto simp: hex_color_match_def rrggbb_def)
qed

lemma color_step_appends:
  "color_step v (i, line) = v\<lparr>issues := issues v @
     (if skip_line (strip line) then []
      else map (\<lambda>(attr, color). mk_issue WARNING i (u ''Invalid color value '' @ quote @ color @ quote)
                 (rstrip line) (Some color_suggestion))
             (filter (\<lambda>(attr, color). \<not> color_accepted color) (color_findall (strip line))))\<rparr>"
proof -
  let ?w = "\<lambda>(attr :: ustring, color). mk_issue WARNING i (u ''Invalid color value '' @ quote @ color @ quote)
                 (rstrip line) (Some color_suggestion)"
  let ?P = "\<lambda>(attr :: ustring, color). \<not> color_accepted color"
  have step: "color_match_step i line u m = u\<lparr>issues := issues u @ (if ?P m then [?w m] else [])\<rparr>" for u m
    by (cases m) (simp add: color_match_step_def append_issue_def)
  have "foldl (color_match_step i line) v ms = v\<lparr>issues := issues v @ map ?w (filter ?P ms)\<rparr>" for ms
    using foldl_appends [of "color_match_step i line" "\<lambda>m. if ?P m then [?w m] else []" v ms, OF step]
    by (simp add: concat_map_if)
  then show ?thesis by (simp add: color_step_def Let_def)
qed

subsection \<open>The color value check\<close>

lemma check_color_values_appends:
  "issues (check_color_values lines v) =
     issues v @ concat (map (\<lambda>(i, line).
       if skip_line (strip line) then []
       else map (\<lambda>(attr, color).
                  mk_issue WARNING i (u ''Invalid color value '' @ quote @ color @ quote) (rstrip line)
                    (Some color_suggestion))
              (filter (\<lambda>(attr, color). \<not> color_accepted color) (color_findall (strip line))))
       (enumerate 1 lines))"
proof -
  let ?w = "\<lambda>i line. \<lambda>(attr :: ustring, color). mk_issue WARNING i (u ''Invalid color value '' @ quote @ color @ quote)
                 (rstrip line) (Some color_suggestion)"
  let ?g = "\<lambda>(i, line). if skip_line (strip line) then []
      else map (?w i line) (filter (\<lambda>(attr, color). \<not> color_accepted color) (color_findall (strip line)))"
  have step: "color_step u x = u\<lparr>issues := issues u @ ?g x\<rparr>" for u x
    by (cases x) (simp add: color_step_appends)
  show ?thesis
    unfolding check_color_values_def
    using foldl_appends [of color_step ?g v "enumerate 1 lines", OF step] by simp
qed

lemma color_accepted_findall:
  "filter (\<lambda>(attr, color). \<not> color_accepted color) (color_findall s)
     = filter (\<lambda>(attr, color). \<not> (color \<in> set valid_colors \<or> startswith color (u ''colour'')
                            \<or> startswith color (u ''color'') \<or> rrggbb color)) (color_findall s)"
proof (rule filter_cong [OF refl])
  fix m
  assume m: "m \<in> set (color_findall s)"
  obtain a c where ac: "m = (a, c)" by (cases m)
  with m color_findall_values [of a c s] have "hex_color_match c \<longleftrightarrow> rrggbb c"
    by (intro hex_color_match_rrggbb) simp
  with ac show "(case m of (attr, color) \<Rightarrow> \<not> color_accepted color) =
      (case m of (attr, color) \<Rightarrow> \<not> (color \<in> set valid_colors \<or> startswith color (u ''colour'')
                            \<or> startswith color (u ''color'') \<or> rrggbb color))"
    by (simp add: color_accepted_def)
qed

text \<open>
  C8, as the code has it. The color check appends, line by line and in order, one WARNING for
  every match of \<open>(fg|bg|style)=(\S+)\<close> on a line that is neither blank nor a comment whose
  value (the run of characters up to the next white space, Unicode white space included) is not in the named-color set,
  does not begin with \<open>colour\<close> or \<open>color\<close>, and is not \<open>#\<close> followed by exactly six hex
  digits; it appends nothing for any other match.
\<close>

theorem check_color_values_warnings:
  "issues (check_color_values lines v) =
     issues v @ concat (map (\<lambda>(i, line).
       if strip line = [] \<or> startswith (strip line) (u ''#'') then []
       else map (\<lambda>(attr, color).
                  mk_issue WARNING i (u ''Invalid color value '' @ quote @ color @ quote) (rstrip line)
                    (Some color_suggestion))
              (filter (\<lambda>(attr, color).
                         \<not> (color \<in> set valid_colors \<or> startswith color (u ''colour'')
                            \<or> startswith color (u ''color'') \<or> rrggbb color))
                 (color_findall (strip line))))
       (enumerate 1 lines))"
  unfolding check_color_values_appends color_accepted_findall skip_line_def ..

theorem check_color_values_warnings_witness:
  "issues (check_color_values
      [0x3000 # u ''# fg=nope'' @ newline,
       u ''set -g status-style fg=white,bg=black'' @ newline,
       u ''set -g pane-border-style fg=colour240 bg=#1e1E2f'' @ newline,
       u ''set -g message-style bg=#12345 fg=brightred'' @ newline,
       u ''set -g mode-style fg=red'' @ [0xA0] @ u ''bg=zzz'' @ newline] (fresh (u ''/tmp/tmux.conf'')))
   = [mk_issue WARNING 2 (u ''Invalid color value '' @ quote @ u ''white,bg=black'' @ quote)
        (u ''set -g status-style fg=white,bg=black'') (Some color_suggestion),
      mk_issue WARNING 4 (u ''Invalid color value '' @ quote @ u ''#12345'' @ quote)
        (u ''set -g message-style bg=#12345 fg=brightred'') (Some color_suggestion),
      mk_issue WARNING 5 (u ''Invalid color value '' @ quote @ u ''zzz'' @ quote)
        (u ''set -g mode-style fg=red'' @ [0xA0] @ u ''bg=zzz'') (Some color_suggestion)]"
  by (subst check_color_values_warnings) code_simp

text \<open>
  C8 as stated fails for a value that begins with \<open>colour\<close> and goes on with something that
  is no index: \<open>fg=colourful\<close> is none of the three valid forms, and no WARNING is emitted.
\<close>

theorem color_claim_counterexample:
  "color_findall (strip (u ''set -g status-style fg=colourful'' @ newline)) = [(u ''fg'', u ''colourful'')]
   \<and> \<not> color_valid_by_spec (u ''colourful'')
   \<and> issues (check_color_values [u ''set -g status-style fg=colourful'' @ newline] (fresh (u ''/tmp/tmux.conf''))) = []"
  by code_simp

subsection \<open>The key binding conflict check\<close>

lemma keybinding_step_table:
  "keybindings (keybinding_step v (i, line)) k =
     (case keybindings v k of
        Some n \<Rightarrow> Some n
      | None \<Rightarrow> if line_key line = Some k then Some i else None)"
  by (auto simp: keybinding_step_def line_key_def Let_def split: option.splits)

lemma keybinding_loop_table:
  "keybindings (foldl keybinding_step v xs) k =
     (case keybindings v k of
        Some n \<Rightarrow> Some n
      | None \<Rightarrow> map_option fst (find (\<lambda>(i, l). line_key l = Some k) xs))"
proof (induction xs arbitrary: v)
  case Nil
  show ?case by (simp split: option.splits)
next
  case (Cons x xs)
  obtain i line where x: "x = (i, line)" by (cases x)
  show ?case
    by (simp add: Cons.IH x keybinding_step_table split: option.splits)
qed

lemma keybinding_step_issues:
  "\<exists>ws. issues (keybinding_step v x) = issues v @ ws"
  by (cases x) (auto simp: keybinding_step_def Let_def split: option.splits)

lemma keybinding_loop_issues:
  "\<exists>ws. issues (foldl keybinding_step v xs) = issues v @ ws"
proof (induction xs arbitrary: v)
  case Nil
  show ?case by simp
next
  case (Cons x xs)
  obtain ws1 where 1: "issues (keybinding_step v x) = issues v @ ws1"
    using keybinding_step_issues by blast
  obtain ws2 where "issues (foldl keybinding_step (keybinding_step v x) xs) = issues (keybinding_step v x) @ ws2"
    using Cons.IH by blast
  with 1 show ?case by simp
qed

lemma keybinding_step_duplicate:
  assumes "line_key line = Some k" and "keybindings v k = Some n"
  shows "issues (keybinding_step v (i, line)) =
     issues v @ [mk_issue WARNING i (u ''Duplicate key binding '' @ quote @ k @ quote) (rstrip line)
        (Some (u ''Previously defined at line '' @ u (str_nat n)))]"
  using assms by (auto simp: keybinding_step_def line_key_def Let_def split: if_splits)

lemma find_enumerate_first:
  assumes "i < length xs" and "P (xs ! i)"
  shows "\<exists>n l. find (\<lambda>(k, l). P l) (enumerate s xs) = Some (n, l) \<and> n \<le> s + i"
  using assms
proof (induction xs arbitrary: s i)
  case Nil
  then show ?case by simp
next
  case (Cons x xs)
  show ?case
  proof (cases "P x")
    case True
    then show ?thesis by simp
  next
    case False
    with Cons.prems obtain i' where i': "i = Suc i'" by (cases i) auto
    with Cons.prems have "i' < length xs" and "P (xs ! i')" by auto
    from Cons.IH [OF this, of "Suc s"] obtain n l where
      "find (\<lambda>(k, l). P l) (enumerate (Suc s) xs) = Some (n, l)" and "n \<le> Suc s + i'" by blast
    with False i' show ?thesis by simp
  qed
qed

lemma find_append_Some: "find P xs = Some y \<Longrightarrow> find P (xs @ ys) = Some y"
  by (induction xs) (auto split: if_splits)

lemma outside_rnx_flag_key:
  assumes f: "outside_rnx_flag f" and r: "startswith t f"
    and e: "drop (length f) t = [] \<or> starts_with_space (drop (length f) t)"
  shows "flag_cluster t = None \<and> key_token t = Some f"
proof -
  from r obtain rest where t: "t = f @ rest" by (auto simp: startswith_iff)
  from f obtain cs where fc: "f = cp CHR ''-'' # cs" and ex: "\<exists>x \<in> set cs. x \<notin> set (u ''rnx'')"
    and ns: "\<forall>x \<in> set f. \<not> is_space x"
    by (auto simp: outside_rnx_flag_def list_ex_iff list_all_iff split: list.splits)
  from e t have rest: "rest = [] \<or> starts_with_space rest" by simp
  have tw: "takeWhile (\<lambda>c. \<not> is_space c) (f @ rest) = f"
  proof (cases rest)
    case Nil
    with ns show ?thesis by simp
  next
    case (Cons c cs')
    with rest have "is_space c" by (simp add: starts_with_space_def)
    with ns Cons show ?thesis by (simp add: takeWhile_append2)
  qed
  have key: "key_token t = Some f"
    using tw fc by (simp add: key_token_def t Let_def)
  let ?P = "\<lambda>x. x \<in> set (u ''rnx'')"
  from ex obtain y where y: "y \<in> set cs" "\<not> ?P y" by blast
  then have "dropWhile ?P cs \<noteq> []" by (metis dropWhile_eq_Nil_conv)
  then obtain d ds where d: "dropWhile ?P cs = d # ds" by (cases "dropWhile ?P cs") auto
  then have "d \<in> set cs" by (metis list.set_intros(1) set_dropWhileD)
  with ns fc have nsd: "\<not> is_space d" by simp
  have "\<not> ?P d" using d by (metis hd_dropWhile list.sel(1) list.distinct(1))
  have dw: "dropWhile ?P (cs @ rest) = d # ds @ rest"
    using d y by (metis (no_types, lifting) append_Cons dropWhile_append1)
  have "flag_cluster t = None"
    using nsd dw by (simp add: flag_cluster_def t fc starts_with_space_def)
  with key show ?thesis by simp
qed

lemma bind_with_flag_key:
  assumes "outside_rnx_flag f" and "bind_with_flag f line"
  shows "line_key line = Some f"
proof -
  let ?s = "strip line"
  from assms(2) have "\<exists>w \<in> set [(u ''bind-key''), (u ''bind'')].
        startswith ?s w
        \<and> starts_with_space (drop (length w) ?s)
        \<and> startswith (dropWhile is_space (drop (length w) ?s)) f
        \<and> (drop (length f) (dropWhile is_space (drop (length w) ?s)) = []
             \<or> starts_with_space (drop (length f) (dropWhile is_space (drop (length w) ?s))))"
    unfolding bind_with_flag_def list_ex_iff .
  then obtain w where wm: "w \<in> set [(u ''bind-key''), (u ''bind'')]"
    and c: "startswith ?s w
        \<and> starts_with_space (drop (length w) ?s)
        \<and> startswith (dropWhile is_space (drop (length w) ?s)) f
        \<and> (drop (length f) (dropWhile is_space (drop (length w) ?s)) = []
             \<or> starts_with_space (drop (length f) (dropWhile is_space (drop (length w) ?s))))" ..
  from wm have w: "w = (u ''bind-key'') \<or> w = (u ''bind'')" by simp
  from c have sw: "startswith ?s w" and sp: "starts_with_space (drop (length w) ?s)"
    and fl: "startswith (dropWhile is_space (drop (length w) ?s)) f"
    and en: "drop (length f) (dropWhile is_space (drop (length w) ?s)) = []
             \<or> starts_with_space (drop (length f) (dropWhile is_space (drop (length w) ?s)))"
    by blast+
  let ?t = "dropWhile is_space (drop (length w) ?s)"
  have k: "flag_cluster ?t = None \<and> key_token ?t = Some f"
    using outside_rnx_flag_key [OF assms(1) fl en] .
  have br: "bind_rest w ?s = Some ?t"
    using sw sp by (simp add: bind_rest_def)
  from sw obtain q where "?s = w @ q" by (auto simp: startswith_iff)
  with w obtain q' where b: "?s = 98 # q'" by (auto simp: u_def)
  have nsk: "\<not> skip_line ?s"
    unfolding b by (simp add: skip_line_def startswith_def u_def)
  have ls: "dropWhile is_space ?s = ?s"
    unfolding b by (simp add: is_space_def)
  have "bind_match ?s = Some f"
  proof (cases "w = (u ''bind-key'')")
    case True
    with br k ls show ?thesis by (simp add: bind_match_def)
  next
    case False
    with w have wb: "w = (u ''bind'')" by simp
    have "bind_rest (u ''bind-key'') ?s = None"
    proof (rule ccontr)
      assume "bind_rest (u ''bind-key'') ?s \<noteq> None"
      then have "startswith ?s (u ''bind-key'')" by (auto simp: bind_rest_def split: if_splits)
      then obtain q where "?s = u ''bind-key'' @ q" by (auto simp: startswith_iff)
      then have "drop (length w) ?s = u ''-key'' @ q" using wb by (simp add: u_def)
      with sp show False by (simp add: starts_with_space_def is_space_def u_def)
    qed
    with br k ls wb show ?thesis by (simp add: bind_match_def)
  qed
  with nsk show ?thesis by (simp add: line_key_def)
qed


text \<open>
  C10. The pattern of the key binding check knows only flag clusters of \<open>r\<close>, \<open>n\<close>, \<open>x\<close>. On a
  line of the form \<open>bind <flag> ...\<close> (or \<open>bind-key <flag> ...\<close>) whose flag is outside that
  cluster, such as \<open>-T\<close>, the token recorded as the bound key is the flag itself. So in a
  run that starts with an empty key table, when an earlier line and a later line both have
  this form with the same flag, the later line is reported as a duplicate binding of the
  flag token, citing the first line that recorded it, whatever keys or tables the lines bind.
\<close>

theorem flag_token_reported_duplicate:
  assumes fresh: "keybindings v = Map.empty"
    and f: "outside_rnx_flag f"
    and ij: "i < j" "j < length lines"
    and li: "bind_with_flag f (lines ! i)"
    and lj: "bind_with_flag f (lines ! j)"
  shows "line_key (lines ! i) = Some f \<and> line_key (lines ! j) = Some f
    \<and> (\<exists>n l. find (\<lambda>(k, l). line_key l = Some f) (enumerate 1 lines) = Some (n, l) \<and> n \<le> i + 1
         \<and> mk_issue WARNING (j + 1) (u ''Duplicate key binding '' @ quote @ f @ quote) (rstrip (lines ! j))
             (Some (u ''Previously defined at line '' @ u (str_nat n)))
           \<in> set (issues (check_keybinding_conflicts lines v)))"
proof -
  let ?P = "\<lambda>(k :: nat, l). line_key l = Some f"
  let ?pre = "take j lines" and ?post = "drop (Suc j) lines"
  have ki: "line_key (lines ! i) = Some f" and kj: "line_key (lines ! j) = Some f"
    using bind_with_flag_key [OF f] li lj by simp_all
  have split: "lines = ?pre @ (lines ! j) # ?post"
    using ij(2) by (rule id_take_nth_drop)
  have len: "length ?pre = j" using ij(2) by simp
  have "enumerate 1 (?pre @ (lines ! j) # ?post)
      = enumerate 1 ?pre @ (j + 1, lines ! j) # enumerate (j + 2) ?post"
    using ij(2) by (simp add: enumerate_append_eq min_absorb2)
  with split have en: "enumerate 1 lines
      = enumerate 1 ?pre @ (j + 1, lines ! j) # enumerate (j + 2) ?post" by simp
  have "i < length ?pre" and "line_key (?pre ! i) = Some f"
    using ij ki by simp_all
  from find_enumerate_first [of i ?pre "\<lambda>l. line_key l = Some f" 1, OF this]
  obtain n l where fp: "find ?P (enumerate 1 ?pre) = Some (n, l)" and n: "n \<le> 1 + i" by blast
  have fl: "find ?P (enumerate 1 lines) = Some (n, l)"
    unfolding en using fp by (rule find_append_Some)
  let ?v1 = "foldl keybinding_step v (enumerate 1 ?pre)"
  let ?w = "mk_issue WARNING (j + 1) (u ''Duplicate key binding '' @ quote @ f @ quote) (rstrip (lines ! j))
             (Some (u ''Previously defined at line '' @ u (str_nat n)))"
  have "keybindings ?v1 f = Some n"
    using fp by (simp add: keybinding_loop_table fresh)
  from keybinding_step_duplicate [OF kj this, of "j + 1"]
  have i2: "issues (keybinding_step ?v1 (j + 1, lines ! j)) = issues ?v1 @ [?w]" .
  obtain ws where "issues (foldl keybinding_step (keybinding_step ?v1 (j + 1, lines ! j))
        (enumerate (j + 2) ?post)) = issues (keybinding_step ?v1 (j + 1, lines ! j)) @ ws"
    using keybinding_loop_issues by blast
  with i2 have "issues (check_keybinding_conflicts lines v) = issues ?v1 @ [?w] @ ws"
    unfolding check_keybinding_conflicts_def en by simp
  then have "?w \<in> set (issues (check_keybinding_conflicts lines v))" by simp
  with ki kj fl n show ?thesis by auto
qed

theorem flag_token_reported_duplicate_witness:
  "mk_issue WARNING 3 (u ''Duplicate key binding '' @ quote @ u ''-T'' @ quote)
       (u ''bind-key -T root C-a send-prefix'') (Some (u ''Previously defined at line 1''))
     \<in> set (issues (check_keybinding_conflicts
         [u ''bind -T'' @ [0xA0] @ u ''copy-mode-vi v send -X begin-selection'' @ newline,
          u ''# a comment'' @ newline,
          u ''bind-key -T root C-a send-prefix'' @ newline] (fresh (u ''/tmp/tmux.conf''))))"
proof -
  let ?lines = "[u ''bind -T'' @ [0xA0] @ u ''copy-mode-vi v send -X begin-selection'' @ newline,
          u ''# a comment'' @ newline,
          u ''bind-key -T root C-a send-prefix'' @ newline]"
  let ?v = "fresh (u ''/tmp/tmux.conf'')"
  have 1: "keybindings ?v = Map.empty" by (simp add: fresh_def)
  have 2: "outside_rnx_flag (u ''-T'')" by code_simp
  have 3: "(0::nat) < 2" "2 < length ?lines" by simp_all
  have 4: "bind_with_flag (u ''-T'') (?lines ! 0)" by code_simp
  have 5: "bind_with_flag (u ''-T'') (?lines ! 2)" by code_simp
  from flag_token_reported_duplicate [OF 1 2 3 4 5]
  obtain n l where a: "find (\<lambda>(k, l). line_key l = Some (u ''-T'')) (enumerate 1 ?lines) = Some (n, l)"
    and b: "mk_issue WARNING (2 + 1) (u ''Duplicate key binding '' @ quote @ u ''-T'' @ quote) (rstrip (?lines ! 2))
             (Some (u ''Previously defined at line '' @ u (str_nat n)))
           \<in> set (issues (check_keybinding_conflicts ?lines ?v))" by blast
  have "find (\<lambda>(k, l). line_key l = Some (u ''-T'')) (enumerate 1 ?lines) = Some (1, ?lines ! 0)"
    by code_simp
  with a have n: "n = 1" by simp
  have r: "rstrip (?lines ! 2) = (u ''bind-key -T root C-a send-prefix'')" by code_simp
  have s: "u ''Previously defined at line '' @ u (str_nat 1) = u ''Previously defined at line 1''"
    by code_simp
  have t: "(2::nat) + 1 = 3" by simp
  from b show ?thesis unfolding n r s t by simp
qed

subsection \<open>Loops that may raise\<close>



subsection \<open>The check against tmux\<close>

lemma tmux_error_step_cases:
  "tmux_error_step limit v error =
     (if \<not> eligible error then (None, v)
      else if too_long limit error
        then (Some (OtherException (int_limit_text limit (token_length error))), v)
      else (None, append_issue (mk_issue ERROR (line_number_of error) (u ''tmux validation error'') []
              (Some error)) v))"
  by (auto simp: tmux_error_step_def eligible_def too_long_def line_number_of_def token_length_def
      py_int_def split: option.splits)

lemma tmux_error_loop:
  "loop_raising (tmux_error_step limit) v es =
     (case dropWhile (\<lambda>e. \<not> too_long limit e) (filter eligible es) of
        [] \<Rightarrow> None
      | bad # rest \<Rightarrow> Some (OtherException (int_limit_text limit (token_length bad))),
      v\<lparr>issues := issues v @
         map (\<lambda>error. mk_issue ERROR (line_number_of error) (u ''tmux validation error'') [] (Some error))
           (takeWhile (\<lambda>e. \<not> too_long limit e) (filter eligible es))\<rparr>)"
proof (induction es arbitrary: v)
  case Nil
  show ?case by simp
next
  case (Cons e es)
  consider "\<not> eligible e" | "eligible e" "too_long limit e" | "eligible e" "\<not> too_long limit e"
    by blast
  then show ?case
  proof cases
    case 1
    then have "tmux_error_step limit v e = (None, v)"
      by (simp add: tmux_error_step_cases)
    with 1 show ?thesis by (simp add: Cons.IH)
  next
    case 2
    then have "tmux_error_step limit v e
        = (Some (OtherException (int_limit_text limit (token_length e))), v)"
      by (simp add: tmux_error_step_cases)
    with 2 show ?thesis by simp
  next
    case 3
    then have "tmux_error_step limit v e
        = (None, append_issue (mk_issue ERROR (line_number_of e) (u ''tmux validation error'') []
              (Some e)) v)"
      by (simp add: tmux_error_step_cases)
    with 3 show ?thesis by (simp add: Cons.IH append_issue_def)
  qed
qed

lemma validate_with_tmux_result:
  "validate_with_tmux env v = (None, v\<lparr>issues := issues v @ tmux_issues env (config_path v)\<rparr>)"
proof (cases "run_tmux env (config_path v)")
  case (Inl e)
  then show ?thesis
    by (cases e) (simp_all add: validate_with_tmux_def tmux_try_def tmux_issues_def append_issue_def)
next
  case (Inr r)
  obtain rc err where r: "r = (rc, err)" by (cases r)
  show ?thesis
  proof (cases "rc = 0")
    case True
    with Inr r show ?thesis
      by (simp add: validate_with_tmux_def tmux_try_def tmux_issues_def)
  next
    case False
    let ?es = "filter eligible (split_on 0x0A (strip err))"
    let ?lim = "int_max_str_digits env"
    show ?thesis
    proof (cases "dropWhile (\<lambda>e. \<not> too_long ?lim e) ?es")
      case Nil
      show ?thesis
        using Inr r False
        by (simp add: validate_with_tmux_def tmux_try_def tmux_issues_def tmux_error_loop Nil)
    next
      case (Cons bad rest)
      show ?thesis
        using Inr r False
        by (simp add: validate_with_tmux_def tmux_try_def tmux_issues_def tmux_error_loop Cons
            append_issue_def)
    qed
  qed
qed

subsection \<open>What the checks leave alone, and what can raise\<close>











lemma validate_unreadable:
  assumes "read_lines env (config_path v) = Inl e"
  shows "validate env v = (None, v\<lparr>issues := [mk_issue ERROR 0 (u ''Cannot read config file: '' @ exn_text e) []
            (Some (u ''Check file permissions and path''))]\<rparr>)"
  using assms by (simp add: validate_def append_issue_def)

lemma validate_readable:
  assumes "read_lines env (config_path v) = Inr lines"
  shows "validate env v =
     (case static_checks env lines (v\<lparr>issues := []\<rparr>) of
        (Some e, v') \<Rightarrow> (Some e, v')
      | (None, v') \<Rightarrow> (None, v'\<lparr>issues := issues v' @ tmux_issues env (config_path v')\<rparr>))"
  using assms
  by (simp add: validate_def static_checks_def validate_with_tmux_result
      split: prod.splits option.splits)




lemma print_all_quiet: "(\<forall>x. print_raises env x = None) \<Longrightarrow> print_all env xs = (xs, None)"
  by (induction xs) auto

lemma print_report_nonempty: "print_report v \<noteq> []"
  by (simp add: print_report_def Let_def)

subsection \<open>The three ways through \<open>main\<close>\<close>

lemma main_not_constructed:
  assumes "new_validator env (config_arg args) = Inl e"
  shows "main env args = handled [] e"
  using assms by (simp add: main_def)

lemma main_raised:
  assumes "new_validator env (config_arg args) = Inr v0" and "validate env v0 = (Some e, v)"
  shows "main env args = handled [] e"
  using assms by (simp add: main_def)

lemma main_validated:
  assumes "new_validator env (config_arg args) = Inr v0" and "validate env v0 = (None, v)"
  shows "main env args =
     (case print_all env (report_items args v) of
        (printed_before, Some e) \<Rightarrow> handled printed_before e
      | (printed_before, None) \<Rightarrow>
          \<lparr>stdout = printed_before, stderr = [],
           exit_status = (if list_ex (\<lambda>i. level i = ERROR) (issues v) then 1 else 0)\<rparr>)"
  using assms by (simp add: main_def)

lemma main_exit_cases:
  "exit_status (main env args) = 1 \<longleftrightarrow>
     list_ex (\<lambda>i. level i = ERROR) (found_issues env args) \<or> load_failed env args
     \<or> check_raised env args \<or> print_raised env args"
proof (cases "new_validator env (config_arg args)")
  case (Inl e)
  then show ?thesis
    by (simp add: main_not_constructed [OF Inl] handled_def load_failed_def)
next
  case (Inr v0)
  obtain r v where val: "validate env v0 = (r, v)" by (cases "validate env v0")
  have lf: "load_failed env args \<Longrightarrow> list_ex (\<lambda>i. level i = ERROR) (found_issues env args)"
  proof -
    assume "load_failed env args"
    then obtain e where "read_lines env (config_path v0) = Inl e"
      by (auto simp: load_failed_def Inr split: sum.splits)
    then show ?thesis
      by (simp add: found_issues_def Inr validate_unreadable mk_issue_def)
  qed
  show ?thesis
  proof (cases r)
    case (Some e)
    with val Inr have "exit_status (main env args) = 1" and "check_raised env args"
      by (simp_all add: main_raised [OF Inr] handled_def check_raised_def)
    then show ?thesis by simp
  next
    case None
    with val have val': "validate env v0 = (None, v)" by simp
    obtain ps pr where pa: "print_all env (report_items args v) = (ps, pr)"
      by (cases "print_all env (report_items args v)")
    have cr: "\<not> check_raised env args"
      by (simp add: check_raised_def Inr val')
    have fi: "found_issues env args = issues v"
      by (simp add: found_issues_def Inr val')
    show ?thesis
    proof (cases pr)
      case (Some e)
      with pa have "exit_status (main env args) = 1" and "print_raised env args"
        by (simp_all add: main_validated [OF Inr val'] handled_def print_raised_def Inr val')
      then show ?thesis by simp
    next
      case None
      with pa have ex: "exit_status (main env args) = (if list_ex (\<lambda>i. level i = ERROR) (issues v) then 1 else 0)"
        and np: "\<not> print_raised env args"
        by (simp_all add: main_validated [OF Inr val'] print_raised_def Inr val')
      show ?thesis
        using lf cr np by (auto simp: ex fi)
    qed
  qed
qed



subsection \<open>The check against tmux never ends the run\<close>

text \<open>
  C5, as the code has it. The check against tmux only appends issues and never raises,
  whatever the run of tmux does. After a non-zero exit, every line of the stripped error
  output that is not empty and does not begin with \<open>server exited\<close> becomes an ERROR issue
  with the number of the first \<open>line N:\<close> token in it (0 when there is none) and the line as
  its suggestion; lines that begin with \<open>server exited\<close> are passed over; and a line whose
  number has more digits than \<open>int\<close> accepts ends the loop with one WARNING, the lines after
  it giving nothing. A timeout becomes one WARNING, a missing tmux binary one INFO, any
  other failure of the invocation one WARNING. The run goes on in every case: when the
  static checks and the printing do not raise, \<open>main\<close> prints the report of the validator
  that the check returned and computes the exit status from its issues.
\<close>

theorem validate_with_tmux_never_aborts:
  "validate_with_tmux env v = (None, v\<lparr>issues := issues v @ tmux_issues env (config_path v)\<rparr>)
   \<and> (\<forall>v0 lines v1.
         new_validator env (config_arg args) = Inr v0
         \<and> read_lines env (config_path v0) = Inr lines
         \<and> static_checks env lines (v0\<lparr>issues := []\<rparr>) = (None, v1)
         \<and> (\<forall>x. print_raises env x = None) \<longrightarrow>
         main env args =
           \<lparr>stdout = report_items args (v1\<lparr>issues := issues v1 @ tmux_issues env (config_path v1)\<rparr>),
            stderr = [],
            exit_status =
              (if list_ex (\<lambda>i. level i = ERROR) (issues v1 @ tmux_issues env (config_path v1))
               then 1 else 0)\<rparr>)"
proof (intro conjI allI impI)
  show "validate_with_tmux env v = (None, v\<lparr>issues := issues v @ tmux_issues env (config_path v)\<rparr>)"
    by (rule validate_with_tmux_result)
next
  fix v0 lines v1
  assume h: "new_validator env (config_arg args) = Inr v0
         \<and> read_lines env (config_path v0) = Inr lines
         \<and> static_checks env lines (v0\<lparr>issues := []\<rparr>) = (None, v1)
         \<and> (\<forall>x. print_raises env x = None)"
  let ?v = "v1\<lparr>issues := issues v1 @ tmux_issues env (config_path v1)\<rparr>"
  from h have n: "new_validator env (config_arg args) = Inr v0" by simp
  from h have val: "validate env v0 = (None, ?v)"
    by (simp add: validate_readable)
  from h have "print_all env (report_items args ?v) = (report_items args ?v, None)"
    by (simp add: print_all_quiet)
  then show "main env args =
           \<lparr>stdout = report_items args ?v, stderr = [],
            exit_status =
              (if list_ex (\<lambda>i. level i = ERROR) (issues v1 @ tmux_issues env (config_path v1))
               then 1 else 0)\<rparr>"
    by (simp add: main_validated [OF n val])
qed

theorem validate_with_tmux_never_aborts_witness:
  "issues (snd (validate_with_tmux
       ((world [] (Inr (1, u ''/tmp/tmux.conf:3: unknown command'' @ newline
            @ u ''server exited unexpectedly'' @ newline @ newline
            @ u ''error at line 12: bad option'' @ newline
            @ u ''line '' @ replicate 641 (cp CHR ''7'') @ u '': too far'' @ newline
            @ u ''line 14: never read'' @ newline)))\<lparr>int_max_str_digits := 640\<rparr>)
       (fresh (u ''/tmp/tmux.conf''))))
     = [mk_issue ERROR 0 (u ''tmux validation error'') [] (Some (u ''/tmp/tmux.conf:3: unknown command'')),
        mk_issue ERROR 12 (u ''tmux validation error'') [] (Some (u ''error at line 12: bad option'')),
        mk_issue WARNING 0
          (u ''Could not validate with tmux: Exceeds the limit (640 digits) for integer string conversion: value has 641 digits; use sys.set_int_max_str_digits() to increase the limit'')
          [] (Some (u ''Syntax validation only, runtime validation skipped''))]
   \<and> main (world [] (Inl (TimeoutExpired [])))
        \<lparr>config_arg = Some (u ''/tmp/tmux.conf''), json_flag = True, fix_flag = False\<rparr>
       = \<lparr>stdout = [JsonArray [JsonIssue (u ''WARNING'') 0 (u ''tmux validation timeout'') []
            (Some (u ''Config validation took too long, might have blocking commands''))]],
          stderr = [], exit_status = 0\<rparr>"
proof (intro conjI)
  show "issues (snd (validate_with_tmux
       ((world [] (Inr (1, u ''/tmp/tmux.conf:3: unknown command'' @ newline
            @ u ''server exited unexpectedly'' @ newline @ newline
            @ u ''error at line 12: bad option'' @ newline
            @ u ''line '' @ replicate 641 (cp CHR ''7'') @ u '': too far'' @ newline
            @ u ''line 14: never read'' @ newline)))\<lparr>int_max_str_digits := 640\<rparr>)
       (fresh (u ''/tmp/tmux.conf''))))
     = [mk_issue ERROR 0 (u ''tmux validation error'') [] (Some (u ''/tmp/tmux.conf:3: unknown command'')),
        mk_issue ERROR 12 (u ''tmux validation error'') [] (Some (u ''error at line 12: bad option'')),
        mk_issue WARNING 0
          (u ''Could not validate with tmux: Exceeds the limit (640 digits) for integer string conversion: value has 641 digits; use sys.set_int_max_str_digits() to increase the limit'')
          [] (Some (u ''Syntax validation only, runtime validation skipped''))]"
    by (subst validate_with_tmux_never_aborts [THEN conjunct1]) code_simp
next
  let ?env = "world [] (Inl (TimeoutExpired []))"
  let ?args = "\<lparr>config_arg = Some (u ''/tmp/tmux.conf''), json_flag = True, fix_flag = False\<rparr>"
  let ?v = "fresh (u ''/tmp/tmux.conf'')"
  have np: "normalize_path (u ''/tmp/tmux.conf'') = u ''/tmp/tmux.conf''" by code_simp
  have ne: "u ''/tmp/tmux.conf'' \<noteq> []" by (simp add: u_def)
  have 1: "new_validator ?env (config_arg ?args) = Inr ?v"
    using ne by (simp add: new_validator_def fresh_def np)
  have 2: "read_lines ?env (config_path ?v) = Inr []"
    by (simp add: world_def fresh_def)
  have 3: "static_checks ?env [] (?v\<lparr>issues := []\<rparr>) = (None, ?v)"
    by (simp add: static_checks_def check_syntax_def check_keybinding_conflicts_def
        check_deprecated_options_def check_color_values_def check_paths_def fresh_def)
  have 4: "\<forall>x. print_raises ?env x = None"
    by (simp add: world_def)
  note t = validate_with_tmux_never_aborts [where env = ?env and args = ?args, THEN conjunct2, rule_format,
      OF conjI [OF 1 conjI [OF 2 conjI [OF 3 4]]]]
  have r: "report_items ?args (?v\<lparr>issues := issues ?v @ tmux_issues ?env (config_path ?v)\<rparr>)
      = [JsonArray [JsonIssue (u ''WARNING'') 0 (u ''tmux validation timeout'') []
            (Some (u ''Config validation took too long, might have blocking commands''))]]"
    by code_simp
  have e: "list_ex (\<lambda>i. level i = ERROR) (issues ?v @ tmux_issues ?env (config_path ?v)) = False"
    by code_simp
  show "main ?env ?args
       = \<lparr>stdout = [JsonArray [JsonIssue (u ''WARNING'') 0 (u ''tmux validation timeout'') []
            (Some (u ''Config validation took too long, might have blocking commands''))]],
          stderr = [], exit_status = 0\<rparr>"
    unfolding t r e by simp
qed

text \<open>
  C5 as stated fails on an error line that begins with \<open>server exited\<close>: tmux exits with
  status 1, its error output has this one non-empty line, and no issue is appended.
\<close>

theorem tmux_claim_counterexample:
  "split_on 0x0A (strip (u ''server exited unexpectedly'' @ newline)) = [u ''server exited unexpectedly'']
   \<and> run_tmux (world [] (Inr (1, u ''server exited unexpectedly'' @ newline))) (u ''/tmp/tmux.conf'')
       = Inr (1, u ''server exited unexpectedly'' @ newline)
   \<and> issues (snd (validate_with_tmux (world [] (Inr (1, u ''server exited unexpectedly'' @ newline)))
        (fresh (u ''/tmp/tmux.conf'')))) = []"
  by code_simp

subsection \<open>Load failure\<close>

text \<open>
  C4, as the code has it. When the configuration file of a validator cannot be read
  (\<open>open\<close> fails on it: it is not there, or it may not be read), \<open>validate\<close> reports the
  failure as a single ERROR issue, which is the whole issue list, and stops there: none of
  the checks runs, the validator is otherwise as it was, the result does not depend on what
  the file system or tmux would have answered, and the run exits with status 1. When no
  path is given and none of the default files exists, no validator comes to be and no
  issue is created: \<open>main\<close> prints nothing but the one line
  \<open>Error: No tmux configuration file found\<close> on the error stream and exits with status 1.
\<close>

theorem validate_load_failure:
  "(\<forall>e. read_lines env (config_path v) = Inl e \<longrightarrow>
       validate env v =
         (None, v\<lparr>issues := [mk_issue ERROR 0 (u ''Cannot read config file: '' @ exn_text e) []
                                 (Some (u ''Check file permissions and path''))]\<rparr>)
       \<and> (\<forall>px ex rt lim. validate (env\<lparr>path_exists := px, expand_path := ex, run_tmux := rt,
                                        int_max_str_digits := lim\<rparr>) v = validate env v)
       \<and> (\<forall>args. new_validator env (config_arg args) = Inr v \<longrightarrow> exit_status (main env args) = 1))
   \<and> (\<forall>h args. (config_arg args = None \<or> config_arg args = Some [])
          \<and> home env = Inr h \<and> (\<forall>p \<in> set (possible_paths h). path_exists env p = Inr False) \<longrightarrow>
        main env args =
          \<lparr>stdout = [], stderr = [u ''Error: No tmux configuration file found''], exit_status = 1\<rparr>)"
proof (intro conjI allI impI)
  fix e
  assume r: "read_lines env (config_path v) = Inl e"
  show "validate env v =
         (None, v\<lparr>issues := [mk_issue ERROR 0 (u ''Cannot read config file: '' @ exn_text e) []
                                 (Some (u ''Check file permissions and path''))]\<rparr>)"
    using r by (rule validate_unreadable)
  show "validate (env\<lparr>path_exists := px, expand_path := ex, run_tmux := rt,
                      int_max_str_digits := lim\<rparr>) v = validate env v" for px ex rt lim
    using r by (simp add: validate_def)
  show "exit_status (main env args) = 1" if "new_validator env (config_arg args) = Inr v"
    for args :: arguments
  proof -
    have "list_ex (\<lambda>i. level i = ERROR) (found_issues env args)"
      by (simp add: found_issues_def that validate_unreadable [OF r] mk_issue_def)
    then show ?thesis by (simp only: main_exit_cases simp_thms)
  qed
next
  fix h and args :: arguments
  assume a: "(config_arg args = None \<or> config_arg args = Some [])
          \<and> home env = Inr h \<and> (\<forall>p \<in> set (possible_paths h). path_exists env p = Inr False)"
  have fe: "first_existing env ps = Inr None" if "\<forall>p \<in> set ps. path_exists env p = Inr False" for ps
    using that by (induction ps) simp_all
  from a have "find_config_file env = Inl (FileNotFoundError (u ''No tmux configuration file found''))"
    by (simp add: find_config_file_def fe)
  with a have "new_validator env (config_arg args)
      = Inl (FileNotFoundError (u ''No tmux configuration file found''))"
    by (auto simp: new_validator_def)
  then have "main env args = handled [] (FileNotFoundError (u ''No tmux configuration file found''))"
    by (rule main_not_constructed)
  then show "main env args =
          \<lparr>stdout = [], stderr = [u ''Error: No tmux configuration file found''], exit_status = 1\<rparr>"
    by (simp add: handled_def u_def)
qed

theorem validate_load_failure_witness:
  "issues (snd (validate (world [u ''bind-key C-a send-prefix'' @ newline] (Inr (1, u ''line 1: bad option'')))
       (fresh (u ''/tmp/missing.conf''))))
     = [mk_issue ERROR 0
          (u ''Cannot read config file: [Errno 2] No such file or directory: '' @ quote
             @ u ''/tmp/missing.conf'' @ quote)
          [] (Some (u ''Check file permissions and path''))]
   \<and> exit_status (main (world [u ''bind-key C-a send-prefix'' @ newline] (Inr (1, u ''line 1: bad option'')))
        \<lparr>config_arg = Some (u ''/tmp//missing.conf''), json_flag = False, fix_flag = False\<rparr>) = 1
   \<and> main empty_world \<lparr>config_arg = None, json_flag = False, fix_flag = False\<rparr>
       = \<lparr>stdout = [], stderr = [u ''Error: No tmux configuration file found''], exit_status = 1\<rparr>"
proof (intro conjI)
  let ?env = "world [u ''bind-key C-a send-prefix'' @ newline] (Inr (1, u ''line 1: bad option''))"
  let ?v = "fresh (u ''/tmp/missing.conf'')"
  let ?args = "\<lparr>config_arg = Some (u ''/tmp//missing.conf''), json_flag = False, fix_flag = False\<rparr>"
  let ?e = "FileNotFoundError (u ''[Errno 2] No such file or directory: '' @ quote @ u ''/tmp/missing.conf'' @ quote)"
  have ne: "u ''/tmp/missing.conf'' \<noteq> u ''/tmp/tmux.conf''" by code_simp
  have r: "read_lines ?env (config_path ?v) = Inl ?e"
    using ne by (simp add: world_def fresh_def)
  have np: "normalize_path (u ''/tmp//missing.conf'') = u ''/tmp/missing.conf''" by code_simp
  have nn: "u ''/tmp//missing.conf'' \<noteq> []" by (simp add: u_def)
  have n: "new_validator ?env (config_arg ?args) = Inr ?v"
    using nn by (simp add: new_validator_def fresh_def np)
  note t = validate_load_failure [of ?env ?v, THEN conjunct1, rule_format, OF r]
  show "issues (snd (validate ?env ?v))
     = [mk_issue ERROR 0
          (u ''Cannot read config file: [Errno 2] No such file or directory: '' @ quote
             @ u ''/tmp/missing.conf'' @ quote)
          [] (Some (u ''Check file permissions and path''))]"
    by (subst t [THEN conjunct1]) code_simp
  show "exit_status (main ?env ?args) = 1"
    by (rule t [THEN conjunct2, THEN conjunct2, rule_format, OF n])
next
  let ?args = "\<lparr>config_arg = None, json_flag = False, fix_flag = False\<rparr>"
  have h: "(config_arg ?args = None \<or> config_arg ?args = Some [])
      \<and> home empty_world = Inr (u ''/home/user'')
      \<and> (\<forall>p \<in> set (possible_paths (u ''/home/user'')). path_exists empty_world p = Inr False)"
    by (simp add: empty_world_def world_def)
  show "main empty_world ?args
       = \<lparr>stdout = [], stderr = [u ''Error: No tmux configuration file found''], exit_status = 1\<rparr>"
    by (rule validate_load_failure [THEN conjunct2, rule_format, OF h])
qed

text \<open>
  C4 as stated fails when the configuration is not found by the default search: the run
  creates no issue at all, prints one line on the error stream, and exits with status 1.
\<close>

theorem load_failure_claim_counterexample:
  "found_issues empty_world \<lparr>config_arg = None, json_flag = False, fix_flag = False\<rparr> = []
   \<and> load_failed empty_world \<lparr>config_arg = None, json_flag = False, fix_flag = False\<rparr>
   \<and> main empty_world \<lparr>config_arg = None, json_flag = False, fix_flag = False\<rparr>
       = \<lparr>stdout = [], stderr = [u ''Error: No tmux configuration file found''], exit_status = 1\<rparr>"
  by code_simp

subsection \<open>Exit status\<close>




subsection \<open>The flag \<open>--fix\<close>\<close>

text \<open>
  C6 fails on the code. The parser declares \<open>--fix\<close> with the help text
  \<open>Attempt to fix issues (creates backup)\<close>, and \<open>main\<close> never reads the flag: on a
  configuration with a misspelled directive the run with \<open>--fix\<close> is the run without it,
  the same report and the same exit status, and nothing says that the flag is not
  supported.
\<close>

theorem fix_flag_silently_ignored:
  "main (world [u ''set-opton -g mouse on'' @ newline] (Inr (0, [])))
       \<lparr>config_arg = Some (u ''/tmp/tmux.conf''), json_flag = True, fix_flag = True\<rparr>
     = main (world [u ''set-opton -g mouse on'' @ newline] (Inr (0, [])))
       \<lparr>config_arg = Some (u ''/tmp/tmux.conf''), json_flag = True, fix_flag = False\<rparr>
   \<and> main (world [u ''set-opton -g mouse on'' @ newline] (Inr (0, [])))
       \<lparr>config_arg = Some (u ''/tmp/tmux.conf''), json_flag = True, fix_flag = True\<rparr>
     = \<lparr>stdout = [JsonArray [JsonIssue (u ''ERROR'') 1 (u ''Possible typo: '' @ quote @ u ''set-opton'' @ quote)
                     (u ''set-opton -g mouse on'')
                     (Some (u ''Did you mean '' @ quote @ u ''set-option'' @ quote @ u ''?''))]],
        stderr = [], exit_status = 1\<rparr>"
  by code_simp

subsection \<open>State kept between runs of a check\<close>

lemma check_color_values_twice:
  "\<exists>ws. issues (check_color_values lines v) = issues v @ ws
      \<and> issues (check_color_values lines (check_color_values lines v)) = issues v @ ws @ ws"
  by (simp add: check_color_values_appends)

text \<open>
  C9 fails on the code for the key binding check, which keeps its key table in the validator
  object: \<open>validate\<close> empties the issue list at its start and leaves the table as it is. On
  a file with the one line \<open>bind-key C-a send-prefix\<close> the first run of the check appends
  nothing and the second run appends a duplicate WARNING; the same holds of two runs of
  \<open>validate\<close> on one validator.
\<close>

theorem keybinding_check_twice_differs:
  "issues (check_keybinding_conflicts [u ''bind-key C-a send-prefix'' @ newline] (fresh (u ''/tmp/tmux.conf''))) = []
   \<and> issues (check_keybinding_conflicts [u ''bind-key C-a send-prefix'' @ newline]
        (check_keybinding_conflicts [u ''bind-key C-a send-prefix'' @ newline] (fresh (u ''/tmp/tmux.conf''))))
     = [mk_issue WARNING 1 (u ''Duplicate key binding '' @ quote @ u ''C-a'' @ quote) (u ''bind-key C-a send-prefix'')
          (Some (u ''Previously defined at line 1''))]
   \<and> issues (snd (validate (world [u ''bind-key C-a send-prefix'' @ newline] (Inr (0, [])))
        (fresh (u ''/tmp/tmux.conf'')))) = []
   \<and> issues (snd (validate (world [u ''bind-key C-a send-prefix'' @ newline] (Inr (0, [])))
        (snd (validate (world [u ''bind-key C-a send-prefix'' @ newline] (Inr (0, [])))
           (fresh (u ''/tmp/tmux.conf''))))))
     = [mk_issue WARNING 1 (u ''Duplicate key binding '' @ quote @ u ''C-a'' @ quote) (u ''bind-key C-a send-prefix'')
          (Some (u ''Previously defined at line 1''))]"
  by code_simp

end
